theory Spec2Isabelle
  imports Complex_Main
begin

section \<open>BookMyBook: checkout workflow and message routes\<close>

text \<open>
  The development embeds two server-side units of the marketplace:
  \<^item> \<^verbatim>\<open>src/app/actions/stripe.ts\<close>: \<^verbatim>\<open>createCheckoutSession\<close> (begin checkout) and
    \<^verbatim>\<open>completeCheckout\<close> (finalize checkout);
  \<^item> the messages route that follows it in the same file: \<^verbatim>\<open>GET\<close> (conversation list and
    two-party thread) and \<^verbatim>\<open>POST\<close> (send a message).

  The relational store and the payment provider are external services. The store is a
  record of tables, each a list of rows; a query applies the filters the source writes.
  Every call to a service either is carried out or reports an error and changes nothing;
  which calls report an error is an input of the model (the records \<open>faults\<close> and
  \<open>msg_faults\<close>), because the source branches on the \<^verbatim>\<open>error\<close> field of some answers and
  drops the answer of others. A thrown exception is the \<open>Inl\<close> branch of the result.

  A JavaScript \<^verbatim>\<open>number\<close> holding a price is modelled as an exact real: prices are
  \<^verbatim>\<open>DECIMAL(10, 2)\<close> columns, and on such values \<^verbatim>\<open>Math.round(price * 100)\<close> computed in
  double precision agrees with the exact value.
\<close>

subsection \<open>Rows of the store\<close>

type_synonym uuid = string
type_synonym number = real

record profile =
  p_id :: uuid
  p_full_name :: string
  p_avatar_url :: string

record book =
  b_id :: uuid
  b_title :: string

record listing =
  l_id :: uuid
  l_seller_id :: uuid
  l_book_id :: uuid
  l_price :: number
  l_status :: string

record cart_item =
  c_id :: uuid
  c_buyer_id :: uuid
  c_listing_id :: uuid
  c_quantity :: int

record order =
  o_buyer_id :: uuid
  o_seller_id :: uuid
  o_listing_id :: uuid
  o_total_amount :: number
  o_status :: string
  o_payment_id :: "string option"

record message =
  m_id :: uuid
  m_sender_id :: uuid
  m_receiver_id :: uuid
  m_content :: string
  m_listing_id :: "uuid option"
  m_read :: bool
  m_created_at :: int

record db =
  profiles :: "profile list"
  books :: "book list"
  listings :: "listing list"
  cart_items :: "cart_item list"
  orders :: "order list"
  messages :: "message list"

subsection \<open>The payment provider\<close>

record line_item =
  li_currency :: string
  li_name :: string
  li_description :: string
  li_unit_amount :: int
  li_quantity :: int

record session =
  s_id :: string
  s_client_secret :: string
  s_ui_mode :: string
  s_redirect_on_completion :: string
  s_mode :: string
  s_line_items :: "line_item list"
  s_metadata :: "(string \<times> string) list option"
  s_payment_status :: string
  s_payment_intent :: "string option"

record world =
  store :: db
  stripe_sessions :: "session list"

text \<open>
  What the services answer. A field that is \<open>True\<close> makes the corresponding call report
  an error. \<open>new_session_id\<close> and \<open>new_client_secret\<close> are the identifiers the provider
  gives to a session it creates.
\<close>

record faults =
  cart_select_fails :: bool
  order_insert_fails :: "order \<Rightarrow> bool"
  listing_update_fails :: "uuid \<Rightarrow> bool"
  cart_delete_fails :: bool
  stripe_create_fails :: bool
  stripe_retrieve_fails :: bool
  new_session_id :: string
  new_client_secret :: string

datatype error =
  Error string
  | PostgrestError
  | StripeError
  | TypeError

subsection \<open>Queries of the checkout actions\<close>

text \<open>
  The rows of \<^verbatim>\<open>cart_items\<close> selected with the embedded resource \<^verbatim>\<open>listings(...)\<close>:
  \<^verbatim>\<open>createCheckoutSession\<close> embeds \<^verbatim>\<open>listings(price, books(title))\<close>, \<^verbatim>\<open>completeCheckout\<close>
  embeds \<^verbatim>\<open>listings(price, seller_id)\<close>. An embedded row that does not exist is
  \<^verbatim>\<open>null\<close>, here \<open>None\<close>. The column \<^verbatim>\<open>quantity\<close> is not selected by either.
\<close>

record listing_row =
  lr_price :: number
  lr_seller_id :: uuid
  lr_books :: "string option"

record cart_row =
  r_id :: uuid
  r_listing_id :: uuid
  r_listings :: "listing_row option"

definition embed_books :: "db \<Rightarrow> uuid \<Rightarrow> string option" where
  "embed_books st bid = map_option b_title (find (\<lambda>b. b_id b = bid) (books st))"

definition embed_listings :: "db \<Rightarrow> uuid \<Rightarrow> listing_row option" where
  "embed_listings st lid =
     map_option
       (\<lambda>l. \<lparr>lr_price = l_price l, lr_seller_id = l_seller_id l,
             lr_books = embed_books st (l_book_id l)\<rparr>)
       (find (\<lambda>l. l_id l = lid) (listings st))"

definition cart_row_of :: "db \<Rightarrow> cart_item \<Rightarrow> cart_row" where
  "cart_row_of st c =
     \<lparr>r_id = c_id c, r_listing_id = c_listing_id c,
      r_listings = embed_listings st (c_listing_id c)\<rparr>"

text \<open>\<^verbatim>\<open>.from("cart_items").select(...).in("id", cartItemIds).eq("buyer_id", user.id)\<close>;
  \<open>None\<close> is the answer with \<^verbatim>\<open>error\<close> set and \<^verbatim>\<open>data\<close> null.\<close>

definition matched_cart_items :: "db \<Rightarrow> uuid list \<Rightarrow> uuid \<Rightarrow> cart_item list" where
  "matched_cart_items st cartItemIds uid =
     filter (\<lambda>c. c_id c \<in> set cartItemIds \<and> c_buyer_id c = uid) (cart_items st)"

definition select_cart_items :: "faults \<Rightarrow> db \<Rightarrow> uuid list \<Rightarrow> uuid \<Rightarrow> cart_row list option" where
  "select_cart_items f st cartItemIds uid =
     (if cart_select_fails f then None
      else Some (map (cart_row_of st) (matched_cart_items st cartItemIds uid)))"

text \<open>\<^verbatim>\<open>.from("listings").update({ status: "sold" }).eq("id", listing_id)\<close>\<close>

definition update_listing_sold :: "uuid \<Rightarrow> db \<Rightarrow> db" where
  "update_listing_sold lid st =
     st\<lparr>listings := map (\<lambda>l. if l_id l = lid then l\<lparr>l_status := ''sold''\<rparr> else l) (listings st)\<rparr>"

text \<open>\<^verbatim>\<open>.from("cart_items").delete().in("id", cartItemIds)\<close>\<close>

definition delete_cart_items :: "uuid list \<Rightarrow> db \<Rightarrow> db" where
  "delete_cart_items cartItemIds st =
     st\<lparr>cart_items := filter (\<lambda>c. c_id c \<notin> set cartItemIds) (cart_items st)\<rparr>"

subsection \<open>Strings: \<^verbatim>\<open>join(",")\<close> and \<^verbatim>\<open>split(",")\<close>\<close>

fun join_comma :: "string list \<Rightarrow> string" where
  "join_comma [] = []"
| "join_comma [x] = x"
| "join_comma (x # y # ys) = x @ '','' @ join_comma (y # ys)"

fun split_comma :: "string \<Rightarrow> string list" where
  "split_comma [] = [[]]"
| "split_comma (c # cs) =
     (if c = CHR '','' then [] # split_comma cs
      else (case split_comma cs of
              [] \<Rightarrow> [[c]]
            | w # ws \<Rightarrow> (c # w) # ws))"

subsection \<open>\<^verbatim>\<open>createCheckoutSession\<close>\<close>

text \<open>\<^verbatim>\<open>Math.round\<close>: the nearest integer, a half rounded up.\<close>

definition Math_round :: "number \<Rightarrow> int" where
  "Math_round x = \<lfloor>x + 1 / 2\<rfloor>"

text \<open>One line item of the \<^verbatim>\<open>map\<close> over the cart rows; reading a property of a \<^verbatim>\<open>null\<close>
  embedded row throws a \<^verbatim>\<open>TypeError\<close>.\<close>

definition line_item_of :: "cart_row \<Rightarrow> error + line_item" where
  "line_item_of item =
     (case r_listings item of
        None \<Rightarrow> Inl TypeError
      | Some l \<Rightarrow>
          (case lr_books l of
             None \<Rightarrow> Inl TypeError
           | Some title \<Rightarrow>
               Inr \<lparr>li_currency = ''inr'', li_name = title,
                    li_description = ''Book listing from BookMyBook'',
                    li_unit_amount = Math_round (lr_price l * 100),
                    li_quantity = 1\<rparr>))"

fun lineItems :: "cart_row list \<Rightarrow> error + line_item list" where
  "lineItems [] = Inr []"
| "lineItems (item # items) =
     (case line_item_of item of
        Inl e \<Rightarrow> Inl e
      | Inr li \<Rightarrow> (case lineItems items of Inl e \<Rightarrow> Inl e | Inr lis \<Rightarrow> Inr (li # lis)))"

definition create_session :: "faults \<Rightarrow> uuid \<Rightarrow> uuid list \<Rightarrow> line_item list \<Rightarrow> session" where
  "create_session f uid cartItemIds lis =
     \<lparr>s_id = new_session_id f, s_client_secret = new_client_secret f,
      s_ui_mode = ''embedded'', s_redirect_on_completion = ''never'', s_mode = ''payment'',
      s_line_items = lis,
      s_metadata = Some [(''buyer_id'', uid), (''cart_item_ids'', join_comma cartItemIds)],
      s_payment_status = ''unpaid'', s_payment_intent = None\<rparr>"

definition createCheckoutSession ::
  "faults \<Rightarrow> uuid option \<Rightarrow> uuid list \<Rightarrow> world \<Rightarrow> (error + string) \<times> world" where
  "createCheckoutSession f user cartItemIds w =
     (case user of
        None \<Rightarrow> (Inl (Error ''User not authenticated''), w)
      | Some uid \<Rightarrow>
          (case select_cart_items f (store w) cartItemIds uid of
             None \<Rightarrow> (Inl (Error ''Cart items not found''), w)
           | Some cartItems \<Rightarrow>
               if cartItems = [] then (Inl (Error ''Cart items not found''), w)
               else
                 (case lineItems cartItems of
                    Inl e \<Rightarrow> (Inl e, w)
                  | Inr lis \<Rightarrow>
                      if stripe_create_fails f then (Inl StripeError, w)
                      else
                        (Inr (new_client_secret f),
                         w\<lparr>stripe_sessions :=
                             stripe_sessions w @ [create_session f uid cartItemIds lis]\<rparr>))))"

subsection \<open>\<^verbatim>\<open>completeCheckout\<close>\<close>

text \<open>\<^verbatim>\<open>stripe.checkout.sessions.retrieve(sessionId)\<close>: throws when the provider has no such
  session or cannot be reached.\<close>

definition retrieve_session :: "faults \<Rightarrow> session list \<Rightarrow> string \<Rightarrow> error + session" where
  "retrieve_session f ss sessionId =
     (if stripe_retrieve_fails f then Inl StripeError
      else (case find (\<lambda>s. s_id s = sessionId) ss of
              None \<Rightarrow> Inl StripeError
            | Some s \<Rightarrow> Inr s))"

text \<open>\<^verbatim>\<open>session.metadata?.cart_item_ids?.split(",") || []\<close>\<close>

definition metadata_cart_item_ids :: "session \<Rightarrow> uuid list" where
  "metadata_cart_item_ids s =
     (case s_metadata s of
        None \<Rightarrow> []
      | Some md \<Rightarrow>
          (case map_of md ''cart_item_ids'' of
             None \<Rightarrow> []
           | Some v \<Rightarrow> split_comma v))"

text \<open>The row inserted into \<^verbatim>\<open>orders\<close> for one cart row.\<close>

definition order_of :: "uuid \<Rightarrow> session \<Rightarrow> cart_row \<Rightarrow> listing_row \<Rightarrow> order" where
  "order_of uid s item l =
     \<lparr>o_buyer_id = uid, o_seller_id = lr_seller_id l, o_listing_id = r_listing_id item,
      o_total_amount = lr_price l, o_status = ''completed'',
      o_payment_id = s_payment_intent s\<rparr>"

text \<open>
  One turn of the \<^verbatim>\<open>for\<close> loop over the cart rows. The answer of the insert is checked
  (\<^verbatim>\<open>if (orderError) throw orderError\<close>); the answer of the update is awaited and dropped,
  so an update that fails leaves the listing as it was and the loop goes on.
\<close>

definition process_item :: "faults \<Rightarrow> uuid \<Rightarrow> session \<Rightarrow> cart_row \<Rightarrow> db \<Rightarrow> error + db" where
  "process_item f uid s item st =
     (case r_listings item of
        None \<Rightarrow> Inl TypeError
      | Some l \<Rightarrow>
          if order_insert_fails f (order_of uid s item l) then Inl PostgrestError
          else
            (let st1 = st\<lparr>orders := orders st @ [order_of uid s item l]\<rparr>
             in Inr (if listing_update_fails f (r_listing_id item) then st1
                     else update_listing_sold (r_listing_id item) st1)))"

fun create_orders :: "faults \<Rightarrow> uuid \<Rightarrow> session \<Rightarrow> cart_row list \<Rightarrow> db \<Rightarrow> error option \<times> db" where
  "create_orders f uid s [] st = (None, st)"
| "create_orders f uid s (item # items) st =
     (case process_item f uid s item st of
        Inl e \<Rightarrow> (Some e, st)
      | Inr st1 \<Rightarrow> create_orders f uid s items st1)"

text \<open>\<open>inserted f uid s ord row\<close>: \<open>ord\<close> is the order of the cart row \<open>row\<close>, and the store
  accepted its insert.\<close>

definition inserted :: "faults \<Rightarrow> uuid \<Rightarrow> session \<Rightarrow> order \<Rightarrow> cart_row \<Rightarrow> bool" where
  "inserted f uid s ord row =
     (case r_listings row of
        None \<Rightarrow> False
      | Some l \<Rightarrow> ord = order_of uid s row l \<and> \<not> order_insert_fails f ord)"

datatype checkout_result = Success

definition completeCheckout ::
  "faults \<Rightarrow> uuid option \<Rightarrow> string \<Rightarrow> world \<Rightarrow> (error + checkout_result) \<times> world" where
  "completeCheckout f user sessionId w =
     (case user of
        None \<Rightarrow> (Inl (Error ''User not authenticated''), w)
      | Some uid \<Rightarrow>
          (case retrieve_session f (stripe_sessions w) sessionId of
             Inl e \<Rightarrow> (Inl e, w)
           | Inr s \<Rightarrow>
               if s_payment_status s \<noteq> ''paid'' then (Inl (Error ''Payment not completed''), w)
               else
                 let cartItemIds = metadata_cart_item_ids s in
                 (case select_cart_items f (store w) cartItemIds uid of
                    None \<Rightarrow> (Inl (Error ''Failed to fetch cart items''), w)
                  | Some cartItems \<Rightarrow>
                      (case create_orders f uid s cartItems (store w) of
                         (Some e, st1) \<Rightarrow> (Inl e, w\<lparr>store := st1\<rparr>)
                       | (None, st1) \<Rightarrow>
                           if cart_delete_fails f then (Inl PostgrestError, w\<lparr>store := st1\<rparr>)
                           else (Inr Success, w\<lparr>store := delete_cart_items cartItemIds st1\<rparr>)))))"

text \<open>What the session charges: Stripe's \<^verbatim>\<open>amount_total\<close>, each line item's unit amount times
  its quantity.\<close>

definition session_total :: "session \<Rightarrow> int" where
  "session_total s = sum_list (map (\<lambda>li. li_unit_amount li * li_quantity li) (s_line_items s))"

text \<open>
  The cart page's \<^verbatim>\<open>handleUpdateQuantity(cartItemId, newQuantity)\<close>, as far as the store is
  concerned: nothing for a quantity below 1; otherwise
  \<^verbatim>\<open>.from("cart_items").update({ quantity: newQuantity }).eq("id", cartItemId)\<close>, which the
  store carries out or rejects (\<open>update_fails\<close>).
\<close>

definition handleUpdateQuantity :: "bool \<Rightarrow> uuid \<Rightarrow> int \<Rightarrow> world \<Rightarrow> world" where
  "handleUpdateQuantity update_fails cartItemId newQuantity w =
     (if newQuantity < 1 then w
      else if update_fails then w
      else w\<lparr>store := (store w)
             \<lparr>cart_items :=
                map (\<lambda>c. if c_id c = cartItemId then c\<lparr>c_quantity := newQuantity\<rparr> else c)
                  (cart_items (store w))\<rparr>\<rparr>)"

text \<open>A world in which every cart item's quantity has been rewritten by \<open>q\<close>.\<close>

definition with_quantities :: "(cart_item \<Rightarrow> int) \<Rightarrow> world \<Rightarrow> world" where
  "with_quantities q w =
     w\<lparr>store := (store w)\<lparr>cart_items := map (\<lambda>c. c\<lparr>c_quantity := q c\<rparr>) (cart_items (store w))\<rparr>\<rparr>"

subsection \<open>The messages route\<close>

record msg_faults =
  messages_select_fails :: bool
  profiles_select_fails :: bool
  messages_update_fails :: bool
  messages_insert_fails :: bool
  gen_random_uuid :: uuid
  current_timestamp :: int

record conversation =
  userId :: uuid
  profile :: "profile option"
  lastMessage :: "message option"
  unreadCount :: nat

datatype body =
  ConversationList "conversation list"
  | Thread "message list"
  | Stored message
  | ErrorBody string

text \<open>A response is \<^verbatim>\<open>NextResponse.json(body, { status })\<close>.\<close>

type_synonym response = "body \<times> nat"

text \<open>\<^verbatim>\<open>.order("created_at", { ascending })\<close>. The store may put rows of equal
  \<^verbatim>\<open>created_at\<close> in any order; the model puts them in one, and the properties below use only
  that the result is ordered and has the same rows.\<close>

definition order_created_at :: "bool \<Rightarrow> message list \<Rightarrow> message list" where
  "order_created_at ascending ms =
     (if ascending then sort_key m_created_at ms else rev (sort_key m_created_at ms))"

text \<open>A JavaScript \<^verbatim>\<open>Map\<close> keeps its keys in insertion order: an association list with
  distinct keys, a new key added at the end.\<close>

definition Map_has :: "'k \<Rightarrow> ('k \<times> 'v) list \<Rightarrow> bool" where
  "Map_has k m = (k \<in> set (map fst m))"

definition Map_push :: "'k \<Rightarrow> 'v \<Rightarrow> ('k \<times> 'v list) list \<Rightarrow> ('k \<times> 'v list) list" where
  "Map_push k x m = map (\<lambda>(k', xs). if k' = k then (k', xs @ [x]) else (k', xs)) m"

definition other_user :: "uuid \<Rightarrow> message \<Rightarrow> uuid" where
  "other_user uid msg = (if m_sender_id msg = uid then m_receiver_id msg else m_sender_id msg)"

text \<open>The body of \<^verbatim>\<open>data.forEach((msg) => ...)\<close>.\<close>

definition group_message ::
  "uuid \<Rightarrow> (uuid \<times> message list) list \<Rightarrow> message \<Rightarrow> (uuid \<times> message list) list" where
  "group_message uid conversations msg =
     (let otherUser = other_user uid msg
      in Map_push otherUser msg
           (if Map_has otherUser conversations then conversations
            else conversations @ [(otherUser, [])]))"

definition unread :: "uuid \<Rightarrow> message list \<Rightarrow> nat" where
  "unread uid ms = length (filter (\<lambda>m. m_receiver_id m = uid \<and> \<not> m_read m) ms)"

definition first_message :: "message list \<Rightarrow> message option" where
  "first_message ms = (case ms of [] \<Rightarrow> None | m # _ \<Rightarrow> Some m)"

text \<open>\<^verbatim>\<open>profiles?.reduce(...)\<close> and \<^verbatim>\<open>profileMap?.[userId]\<close>: no profile map when the profile
  query answered with an error.\<close>

definition profile_lookup :: "msg_faults \<Rightarrow> db \<Rightarrow> uuid list \<Rightarrow> uuid \<Rightarrow> profile option" where
  "profile_lookup f st userIds =
     (if profiles_select_fails f then Map.empty
      else foldl (\<lambda>acc p. acc(p_id p \<mapsto> p)) Map.empty
             (filter (\<lambda>p. p_id p \<in> set userIds) (profiles st)))"

text \<open>\<^verbatim>\<open>.from("messages").select(...).or(`sender_id.eq.${user.id},receiver_id.eq.${user.id}`)
  .order("created_at", { ascending: false })\<close>\<close>

definition user_messages :: "uuid \<Rightarrow> db \<Rightarrow> message list" where
  "user_messages uid st =
     order_created_at False
       (filter (\<lambda>m. m_sender_id m = uid \<or> m_receiver_id m = uid) (messages st))"

definition list_conversations :: "msg_faults \<Rightarrow> uuid \<Rightarrow> db \<Rightarrow> conversation list" where
  "list_conversations f uid st =
     (let data = user_messages uid st;
          conversations = foldl (group_message uid) [] data;
          userIds = map fst conversations;
          profileMap = profile_lookup f st userIds
      in map (\<lambda>(k, ms). \<lparr>userId = k, profile = profileMap k, lastMessage = first_message ms,
                           unreadCount = unread uid ms\<rparr>)
           conversations)"

definition thread_messages :: "uuid \<Rightarrow> uuid \<Rightarrow> db \<Rightarrow> message list" where
  "thread_messages uid otherUserId st =
     order_created_at True
       (filter (\<lambda>m. m_sender_id m = uid \<and> m_receiver_id m = otherUserId
                   \<or> m_sender_id m = otherUserId \<and> m_receiver_id m = uid)
          (messages st))"

text \<open>\<^verbatim>\<open>.from("messages").update({ read: true }).eq("receiver_id", user.id).eq("sender_id",
  otherUserId)\<close>\<close>

definition mark_read :: "uuid \<Rightarrow> uuid \<Rightarrow> db \<Rightarrow> db" where
  "mark_read uid otherUserId st =
     st\<lparr>messages :=
          map (\<lambda>m. if m_receiver_id m = uid \<and> m_sender_id m = otherUserId
                    then m\<lparr>m_read := True\<rparr> else m)
            (messages st)\<rparr>"

text \<open>
  The \<^verbatim>\<open>GET\<close> handler. Without \<^verbatim>\<open>otherUserId\<close> (absent or empty) it answers the
  conversation list; with it, the thread, after which the update that marks the messages
  read is awaited and its answer dropped.
\<close>

definition GET :: "msg_faults \<Rightarrow> uuid option \<Rightarrow> string option \<Rightarrow> db \<Rightarrow> response \<times> db" where
  "GET f user otherUserId st =
     (case user of
        None \<Rightarrow> ((ErrorBody ''Unauthorized'', 401), st)
      | Some uid \<Rightarrow>
          if otherUserId = None \<or> otherUserId = Some [] then
            (if messages_select_fails f then ((ErrorBody ''Failed to fetch messages'', 500), st)
             else ((ConversationList (list_conversations f uid st), 200), st))
          else
            (case otherUserId of
               None \<Rightarrow> ((ErrorBody ''Failed to fetch messages'', 500), st)
             | Some other \<Rightarrow>
                 if messages_select_fails f then ((ErrorBody ''Failed to fetch messages'', 500), st)
                 else
                   ((Thread (thread_messages uid other st), 200),
                    (if messages_update_fails f then st else mark_read uid other st))))"

text \<open>The \<^verbatim>\<open>POST\<close> handler; a field of the request body is a string or absent.\<close>

definition POST ::
  "msg_faults \<Rightarrow> uuid option \<Rightarrow> string option \<Rightarrow> string option \<Rightarrow> string option \<Rightarrow> db
     \<Rightarrow> response \<times> db" where
  "POST f user receiverId content listingId st =
     (case user of
        None \<Rightarrow> ((ErrorBody ''Unauthorized'', 401), st)
      | Some uid \<Rightarrow>
          (case (receiverId, content) of
             (Some r, Some c) \<Rightarrow>
               if r = [] \<or> c = [] then ((ErrorBody ''Missing required fields'', 400), st)
               else if messages_insert_fails f then
                 ((ErrorBody ''Failed to send message'', 500), st)
               else
                 (let row = \<lparr>m_id = gen_random_uuid f, m_sender_id = uid, m_receiver_id = r,
                              m_content = c,
                              m_listing_id = (if listingId = Some [] then None else listingId),
                              m_read = False, m_created_at = current_timestamp f\<rparr>
                  in ((Stored row, 200), st\<lparr>messages := messages st @ [row]\<rparr>))
           | _ \<Rightarrow> ((ErrorBody ''Missing required fields'', 400), st)))"

subsection \<open>Notions used to state the properties of the conversation list\<close>

text \<open>The elements of a list in the order of their first occurrence, and the messages of a
  list exchanged with one counterpart.\<close>

definition first_seen :: "'a list \<Rightarrow> 'a list" where
  "first_seen ks = rev (remdups (rev ks))"

definition with_user :: "uuid \<Rightarrow> uuid \<Rightarrow> message list \<Rightarrow> message list" where
  "with_user uid k ms = filter (\<lambda>m. other_user uid m = k) ms"

text \<open>The messages from \<open>x\<close> to \<open>uid\<close> that are not read.\<close>

definition unread_from :: "uuid \<Rightarrow> uuid \<Rightarrow> message list \<Rightarrow> message list" where
  "unread_from x uid ms =
     filter (\<lambda>m. m_sender_id m = x \<and> m_receiver_id m = uid \<and> \<not> m_read m) ms"

subsection \<open>A marketplace used in the examples\<close>

text \<open>
  Two listings, \<open>L1\<close> at 199 and \<open>L2\<close> at 350; the buyer's cart holds both (the second
  with quantity 3), and another user's cart holds \<open>L1\<close>. \<open>ex_faults\<close> lets every call
  through.
\<close>

definition ex_store :: db where
  "ex_store =
     \<lparr>profiles = [],
      books = [\<lparr>b_id = ''B1'', b_title = ''Dune''\<rparr>, \<lparr>b_id = ''B2'', b_title = ''Emma''\<rparr>],
      listings =
        [\<lparr>l_id = ''L1'', l_seller_id = ''seller1'', l_book_id = ''B1'', l_price = 199,
          l_status = ''available''\<rparr>,
         \<lparr>l_id = ''L2'', l_seller_id = ''seller2'', l_book_id = ''B2'', l_price = 350,
          l_status = ''available''\<rparr>],
      cart_items =
        [\<lparr>c_id = ''c1'', c_buyer_id = ''buyer'', c_listing_id = ''L1'', c_quantity = 1\<rparr>,
         \<lparr>c_id = ''c2'', c_buyer_id = ''buyer'', c_listing_id = ''L2'', c_quantity = 3\<rparr>,
         \<lparr>c_id = ''c3'', c_buyer_id = ''other'', c_listing_id = ''L1'', c_quantity = 1\<rparr>],
      orders = [], messages = []\<rparr>"

definition ex_faults :: faults where
  "ex_faults =
     \<lparr>cart_select_fails = False, order_insert_fails = (\<lambda>_. False),
      listing_update_fails = (\<lambda>_. False), cart_delete_fails = False,
      stripe_create_fails = False, stripe_retrieve_fails = False,
      new_session_id = ''cs_1'', new_client_secret = ''cs_1_secret''\<rparr>"

definition ex_world :: world where
  "ex_world = \<lparr>store = ex_store, stripe_sessions = []\<rparr>"

text \<open>The session that \<open>createCheckoutSession\<close> opens for the buyer's two cart items, before
  and after the provider has captured the payment \<open>pay_1\<close>.\<close>

definition ex_session :: session where
  "ex_session =
     \<lparr>s_id = ''cs_1'', s_client_secret = ''cs_1_secret'', s_ui_mode = ''embedded'',
      s_redirect_on_completion = ''never'', s_mode = ''payment'',
      s_line_items =
        [\<lparr>li_currency = ''inr'', li_name = ''Dune'',
          li_description = ''Book listing from BookMyBook'', li_unit_amount = 19900,
          li_quantity = 1\<rparr>,
         \<lparr>li_currency = ''inr'', li_name = ''Emma'',
          li_description = ''Book listing from BookMyBook'', li_unit_amount = 35000,
          li_quantity = 1\<rparr>],
      s_metadata = Some [(''buyer_id'', ''buyer''), (''cart_item_ids'', ''c1,c2'')],
      s_payment_status = ''unpaid'', s_payment_intent = None\<rparr>"

definition ex_unpaid_world :: world where
  "ex_unpaid_world = \<lparr>store = ex_store, stripe_sessions = [ex_session]\<rparr>"

definition ex_paid_world :: world where
  "ex_paid_world =
     \<lparr>store = ex_store,
      stripe_sessions =
        [ex_session\<lparr>s_payment_status := ''paid'', s_payment_intent := Some ''pay_1''\<rparr>]\<rparr>"

text \<open>The orders of the buyer's two cart items under the payment \<open>pay_1\<close>.\<close>

definition ex_orders :: "order list" where
  "ex_orders =
     [\<lparr>o_buyer_id = ''buyer'', o_seller_id = ''seller1'', o_listing_id = ''L1'',
       o_total_amount = 199, o_status = ''completed'', o_payment_id = Some ''pay_1''\<rparr>,
      \<lparr>o_buyer_id = ''buyer'', o_seller_id = ''seller2'', o_listing_id = ''L2'',
       o_total_amount = 350, o_status = ''completed'', o_payment_id = Some ''pay_1''\<rparr>]"

text \<open>The world after the paid session of the example has been finalized.\<close>

definition ex_finalized_world :: world where
  "ex_finalized_world =
     ex_paid_world
       \<lparr>store := ex_store
          \<lparr>listings := map (\<lambda>l. l\<lparr>l_status := ''sold''\<rparr>) (listings ex_store),
           orders := ex_orders,
           cart_items := [\<lparr>c_id = ''c3'', c_buyer_id = ''other'', c_listing_id = ''L1'',
                           c_quantity = 1\<rparr>]\<rparr>\<rparr>"

text \<open>
  The messages of the user \<open>me\<close>: one from \<open>B\<close> at time 1, one to \<open>A\<close> at time 2, one from
  \<open>A\<close> at time 3; those received are not read yet. \<open>ex_msg_faults\<close> lets every call
  through.
\<close>

definition ex_m1 :: message where
  "ex_m1 = \<lparr>m_id = ''m1'', m_sender_id = ''B'', m_receiver_id = ''me'', m_content = ''hello'',
            m_listing_id = None, m_read = False, m_created_at = 1\<rparr>"

definition ex_m2 :: message where
  "ex_m2 = \<lparr>m_id = ''m2'', m_sender_id = ''me'', m_receiver_id = ''A'',
            m_content = ''Is this available?'', m_listing_id = Some ''L1'', m_read = False,
            m_created_at = 2\<rparr>"

definition ex_m3 :: message where
  "ex_m3 = \<lparr>m_id = ''m3'', m_sender_id = ''A'', m_receiver_id = ''me'', m_content = ''yes'',
            m_listing_id = Some ''L1'', m_read = False, m_created_at = 3\<rparr>"

definition ex_inbox :: db where
  "ex_inbox =
     \<lparr>profiles = [], books = [], listings = [], cart_items = [], orders = [],
      messages = [ex_m1, ex_m2, ex_m3]\<rparr>"

definition ex_msg_faults :: msg_faults where
  "ex_msg_faults =
     \<lparr>messages_select_fails = False, profiles_select_fails = False,
      messages_update_fails = False, messages_insert_fails = False,
      gen_random_uuid = ''m4'', current_timestamp = 4\<rparr>"

definition ex_conversations :: "conversation list" where
  "ex_conversations =
     [\<lparr>userId = ''A'', profile = None, lastMessage = Some ex_m3, unreadCount = 1\<rparr>,
      \<lparr>userId = ''B'', profile = None, lastMessage = Some ex_m1, unreadCount = 1\<rparr>]"

definition ex_m4 :: message where
  "ex_m4 = \<lparr>m_id = ''m4'', m_sender_id = ''me'', m_receiver_id = ''B'', m_content = ''hi'',
            m_listing_id = None, m_read = False, m_created_at = 4\<rparr>"

section \<open>Properties of the checkout actions\<close>

lemmas ex_defs =
  ex_store_def ex_faults_def ex_world_def ex_session_def ex_unpaid_world_def
  ex_paid_world_def ex_orders_def

lemmas checkout_defs =
  createCheckoutSession_def completeCheckout_def select_cart_items_def
  matched_cart_items_def cart_row_of_def embed_listings_def embed_books_def
  line_item_of_def create_session_def Math_round_def retrieve_session_def
  metadata_cart_item_ids_def process_item_def order_of_def update_listing_sold_def
  delete_cart_items_def session_total_def

subsection \<open>What a call that returns has done\<close>

lemma lineItems_Inr:
  "lineItems rows = Inr lis \<Longrightarrow> list_all2 (\<lambda>li r. line_item_of r = Inr li) lis rows"
  by (induction rows arbitrary: lis) (auto split: sum.splits)

lemma line_item_of_Inr:
  "line_item_of (cart_row_of st c) = Inr li \<Longrightarrow>
     li_quantity li = 1 \<and>
     (\<exists>l. find (\<lambda>l. l_id l = c_listing_id c) (listings st) = Some l \<and>
          li_unit_amount li = Math_round (l_price l * 100))"
  by (auto simp: line_item_of_def cart_row_of_def embed_listings_def split: option.splits)

lemma createCheckoutSession_Inr:
  assumes "createCheckoutSession f user cartItemIds w = (Inr secret, w')"
  shows "\<exists>uid lis. user = Some uid \<and> \<not> cart_select_fails f \<and> \<not> stripe_create_fails f
           \<and> lineItems (map (cart_row_of (store w))
                 (matched_cart_items (store w) cartItemIds uid)) = Inr lis
           \<and> matched_cart_items (store w) cartItemIds uid \<noteq> []
           \<and> secret = new_client_secret f
           \<and> w' = w\<lparr>stripe_sessions :=
                      stripe_sessions w @ [create_session f uid cartItemIds lis]\<rparr>"
  using assms
  by (auto simp: createCheckoutSession_def select_cart_items_def
      split: option.splits if_splits sum.splits)

text \<open>Each line item of a created session stands for one selected cart item, in order,
  with quantity 1 and the price of the listing the store holds for it.\<close>

lemma createCheckoutSession_line_items:
  assumes "createCheckoutSession f user cartItemIds w = (Inr secret, w')"
  shows "\<exists>uid s. user = Some uid
           \<and> w' = w\<lparr>stripe_sessions := stripe_sessions w @ [s]\<rparr>
           \<and> list_all2
                (\<lambda>li c. li_quantity li = 1 \<and>
                   (\<exists>l. find (\<lambda>l. l_id l = c_listing_id c) (listings (store w)) = Some l \<and>
                        li_unit_amount li = Math_round (l_price l * 100)))
                (s_line_items s) (matched_cart_items (store w) cartItemIds uid)"
proof -
  from createCheckoutSession_Inr[OF assms] obtain uid lis where
    u: "user = Some uid" and
    lis: "lineItems (map (cart_row_of (store w))
            (matched_cart_items (store w) cartItemIds uid)) = Inr lis" and
    w': "w' = w\<lparr>stripe_sessions :=
                 stripe_sessions w @ [create_session f uid cartItemIds lis]\<rparr>"
    by blast
  from lineItems_Inr[OF lis]
  have "list_all2 (\<lambda>li c. line_item_of (cart_row_of (store w) c) = Inr li)
          lis (matched_cart_items (store w) cartItemIds uid)"
    by (simp add: list_all2_map2)
  then have "list_all2
       (\<lambda>li c. li_quantity li = 1 \<and>
          (\<exists>l. find (\<lambda>l. l_id l = c_listing_id c) (listings (store w)) = Some l \<and>
               li_unit_amount li = Math_round (l_price l * 100)))
       lis (matched_cart_items (store w) cartItemIds uid)"
    by (rule list_all2_mono) (rule line_item_of_Inr)
  moreover have "s_line_items (create_session f uid cartItemIds lis) = lis"
    by (simp add: create_session_def)
  ultimately show ?thesis using u w' by auto
qed

lemma process_item_Inr:
  "process_item f uid s item st = Inr st1 \<Longrightarrow>
     \<exists>l. r_listings item = Some l \<and> \<not> order_insert_fails f (order_of uid s item l)
       \<and> orders st1 = orders st @ [order_of uid s item l]
       \<and> cart_items st1 = cart_items st
       \<and> (\<not> listing_update_fails f (r_listing_id item) \<longrightarrow>
            (\<forall>l \<in> set (listings st1). l_id l = r_listing_id item \<longrightarrow> l_status l = ''sold''))
       \<and> (\<forall>lid. (\<forall>l \<in> set (listings st). l_id l = lid \<longrightarrow> l_status l = ''sold'') \<longrightarrow>
                 (\<forall>l \<in> set (listings st1). l_id l = lid \<longrightarrow> l_status l = ''sold''))"
  unfolding process_item_def Let_def
  by (cases "r_listings item")
     (auto simp: update_listing_sold_def split: if_splits)

lemma create_orders_Cons_None:
  "create_orders f uid s (item # items) st = (None, st1) \<Longrightarrow>
     \<exists>st'. process_item f uid s item st = Inr st' \<and>
           create_orders f uid s items st' = (None, st1)"
  by (cases "process_item f uid s item st") simp_all

lemma create_orders_cart_items:
  "create_orders f uid s rows st = (r, st1) \<Longrightarrow> cart_items st1 = cart_items st"
proof (induction rows arbitrary: st)
  case Nil
  then show ?case by simp
next
  case (Cons item items)
  show ?case
  proof (cases "process_item f uid s item st")
    case (Inl e)
    with Cons.prems show ?thesis by simp
  next
    case (Inr st')
    with Cons.prems have "create_orders f uid s items st' = (r, st1)" by simp
    from Cons.IH[OF this] process_item_Inr[OF Inr] show ?thesis by auto
  qed
qed

lemma create_orders_None:
  "create_orders f uid s rows st = (None, st1) \<Longrightarrow>
     \<exists>os. orders st1 = orders st @ os \<and> list_all2 (inserted f uid s) os rows"
proof (induction rows arbitrary: st)
  case Nil
  then show ?case by simp
next
  case (Cons item items)
  from create_orders_Cons_None[OF Cons.prems] obtain st' where
    p: "process_item f uid s item st = Inr st'" and
    rest: "create_orders f uid s items st' = (None, st1)"
    by blast
  from process_item_Inr[OF p] obtain l where
    l: "r_listings item = Some l" "\<not> order_insert_fails f (order_of uid s item l)"
       "orders st' = orders st @ [order_of uid s item l]"
    by blast
  from Cons.IH[OF rest] obtain os where
    os: "orders st1 = orders st' @ os" "list_all2 (inserted f uid s) os items"
    by blast
  have 1: "orders st1 = orders st @ (order_of uid s item l # os)"
    by (simp add: os(1) l(3))
  have "inserted f uid s (order_of uid s item l) item"
    unfolding inserted_def using l(1,2) by simp
  with os(2) have 2: "list_all2 (inserted f uid s) (order_of uid s item l # os) (item # items)"
    by simp
  from 1 2 show ?case by blast
qed

lemma create_orders_keeps_sold:
  "create_orders f uid s rows st = (r, st1) \<Longrightarrow>
   \<forall>l \<in> set (listings st). l_id l = lid \<longrightarrow> l_status l = ''sold'' \<Longrightarrow>
   \<forall>l \<in> set (listings st1). l_id l = lid \<longrightarrow> l_status l = ''sold''"
proof (induction rows arbitrary: st)
  case Nil
  then show ?case by simp
next
  case (Cons item items)
  show ?case
  proof (cases "process_item f uid s item st")
    case (Inl e)
    with Cons.prems show ?thesis by simp
  next
    case (Inr st')
    with Cons.prems(1) have rest: "create_orders f uid s items st' = (r, st1)" by simp
    from process_item_Inr[OF Inr] Cons.prems(2)
    have "\<forall>l \<in> set (listings st'). l_id l = lid \<longrightarrow> l_status l = ''sold''" by blast
    from Cons.IH[OF rest this] show ?thesis .
  qed
qed

lemma create_orders_sold:
  "create_orders f uid s rows st = (None, st1) \<Longrightarrow> row \<in> set rows \<Longrightarrow>
   \<not> listing_update_fails f (r_listing_id row) \<Longrightarrow>
   \<forall>l \<in> set (listings st1). l_id l = r_listing_id row \<longrightarrow> l_status l = ''sold''"
proof (induction rows arbitrary: st)
  case Nil
  then show ?case by simp
next
  case (Cons item items)
  from create_orders_Cons_None[OF Cons.prems(1)] obtain st' where
    p: "process_item f uid s item st = Inr st'" and
    rest: "create_orders f uid s items st' = (None, st1)"
    by blast
  show ?case
  proof (cases "row = item")
    case True
    from process_item_Inr[OF p] True Cons.prems(3)
    have "\<forall>l \<in> set (listings st'). l_id l = r_listing_id row \<longrightarrow> l_status l = ''sold''"
      by blast
    from create_orders_keeps_sold[OF rest this] show ?thesis .
  next
    case False
    with Cons.prems(2) have "row \<in> set items" by simp
    from Cons.IH[OF rest this Cons.prems(3)] show ?thesis .
  qed
qed

lemma completeCheckout_Success:
  assumes "completeCheckout f user sessionId w = (Inr Success, w')"
  shows "\<exists>uid s st1. user = Some uid
     \<and> retrieve_session f (stripe_sessions w) sessionId = Inr s
     \<and> s_payment_status s = ''paid''
     \<and> \<not> cart_select_fails f
     \<and> create_orders f uid s (map (cart_row_of (store w))
            (matched_cart_items (store w) (metadata_cart_item_ids s) uid)) (store w)
         = (None, st1)
     \<and> \<not> cart_delete_fails f
     \<and> w' = w\<lparr>store := delete_cart_items (metadata_cart_item_ids s) st1\<rparr>"
proof -
  from assms obtain uid where u: "user = Some uid"
    by (cases user) (auto simp: completeCheckout_def)
  from assms u obtain s where s: "retrieve_session f (stripe_sessions w) sessionId = Inr s"
    by (cases "retrieve_session f (stripe_sessions w) sessionId")
       (auto simp: completeCheckout_def)
  from assms u s have paid: "s_payment_status s = ''paid''"
    by (auto simp: completeCheckout_def split: if_splits)
  from assms u s paid have sel: "\<not> cart_select_fails f"
    by (auto simp: completeCheckout_def select_cart_items_def split: if_splits)
  let ?rows = "map (cart_row_of (store w))
                 (matched_cart_items (store w) (metadata_cart_item_ids s) uid)"
  obtain r st1 where c: "create_orders f uid s ?rows (store w) = (r, st1)"
    by (cases "create_orders f uid s ?rows (store w)")
  from assms u s paid sel c have "r = None \<and> \<not> cart_delete_fails f
     \<and> w' = w\<lparr>store := delete_cart_items (metadata_cart_item_ids s) st1\<rparr>"
    by (cases r)
       (auto simp: completeCheckout_def select_cart_items_def Let_def split: if_splits)
  with u s paid sel c show ?thesis by blast
qed

subsection \<open>Finalize: the payment must be captured\<close>

text \<open>
  C4. For a session whose payment status is anything other than \<open>paid\<close>, an authenticated
  call of \<open>completeCheckout\<close> throws the error "Payment not completed" and leaves the
  whole world as it was: the check comes before every store call, so no order is inserted,
  no listing changes and no cart item is deleted. (The authentication check is the only
  one before it.)
\<close>

theorem completeCheckout_payment_not_completed:
  assumes "retrieve_session f (stripe_sessions w) sessionId = Inr s"
    and "s_payment_status s \<noteq> ''paid''"
  shows "completeCheckout f (Some uid) sessionId w = (Inl (Error ''Payment not completed''), w)"
  using assms by (simp add: completeCheckout_def)

theorem completeCheckout_payment_not_completed_witness:
  "retrieve_session ex_faults (stripe_sessions ex_unpaid_world) ''cs_1'' = Inr ex_session
   \<and> s_payment_status ex_session = ''unpaid''
   \<and> completeCheckout ex_faults (Some ''buyer'') ''cs_1'' ex_unpaid_world
       = (Inl (Error ''Payment not completed''), ex_unpaid_world)"
proof -
  have r: "retrieve_session ex_faults (stripe_sessions ex_unpaid_world) ''cs_1'' = Inr ex_session"
    by (simp add: retrieve_session_def ex_defs)
  have p: "s_payment_status ex_session \<noteq> ''paid''"
    by (simp add: ex_session_def)
  from completeCheckout_payment_not_completed[OF r p, of "''buyer''"] r
  show ?thesis by (simp add: ex_session_def)
qed

subsection \<open>Begin: cart items that are not the caller's\<close>

text \<open>
  C6. When none of the given ids is the id of a cart item owned by the caller (the ids
  belong to another buyer, or to no cart item), \<open>createCheckoutSession\<close> throws the error
  "Cart items not found"; the provider's sessions and the store are as before.
\<close>

theorem createCheckoutSession_not_found:
  assumes "\<forall>c \<in> set (cart_items (store w)). c_id c \<in> set cartItemIds \<longrightarrow> c_buyer_id c \<noteq> uid"
  shows "createCheckoutSession f (Some uid) cartItemIds w
           = (Inl (Error ''Cart items not found''), w)"
proof -
  from assms have "matched_cart_items (store w) cartItemIds uid = []"
    by (auto simp: matched_cart_items_def filter_empty_conv)
  then show ?thesis
    by (simp add: createCheckoutSession_def select_cart_items_def)
qed

text \<open>In the example the id \<open>c3\<close> is a cart item of another user and \<open>c9\<close> is no cart
  item.\<close>

theorem createCheckoutSession_not_found_witness:
  "map (\<lambda>c. (c_id c, c_buyer_id c))
     (filter (\<lambda>c. c_id c \<in> set [''c3'', ''c9'']) (cart_items (store ex_world)))
     = [(''c3'', ''other'')]
   \<and> createCheckoutSession ex_faults (Some ''buyer'') [''c3'', ''c9''] ex_world
     = (Inl (Error ''Cart items not found''), ex_world)"
proof -
  have own: "\<forall>c \<in> set (cart_items (store ex_world)).
               c_id c \<in> set [''c3'', ''c9''] \<longrightarrow> c_buyer_id c \<noteq> ''buyer''"
    by (simp add: ex_defs)
  have "map (\<lambda>c. (c_id c, c_buyer_id c))
     (filter (\<lambda>c. c_id c \<in> set [''c3'', ''c9'']) (cart_items (store ex_world)))
     = [(''c3'', ''other'')]"
    by (simp add: ex_defs)
  with createCheckoutSession_not_found[OF own, of ex_faults] show ?thesis by simp
qed

subsection \<open>Begin: the amounts of the line items\<close>

text \<open>
  C5. A session that \<open>createCheckoutSession\<close> creates has one line item per cart item
  selected for the caller, in order, and the amount of each is the price that the store
  holds for the cart item's listing at the time of the call, times 100, rounded
  (\<open>Math_round\<close>); the only input of the call besides the caller is the list of ids, so no
  amount comes from the client. For the cart with prices 199 and 350 the line items are
  19900 and 35000, in total 54900.
\<close>

theorem createCheckoutSession_amounts:
  "(createCheckoutSession f user cartItemIds w = (Inr secret, w') \<longrightarrow>
      (\<exists>uid s. user = Some uid
         \<and> w' = w\<lparr>stripe_sessions := stripe_sessions w @ [s]\<rparr>
         \<and> list_all2
              (\<lambda>li c. \<exists>l. find (\<lambda>l. l_id l = c_listing_id c) (listings (store w)) = Some l \<and>
                          li_unit_amount li = Math_round (l_price l * 100))
              (s_line_items s) (matched_cart_items (store w) cartItemIds uid)))
   \<and> map (\<lambda>s. (map li_unit_amount (s_line_items s), session_total s))
         (stripe_sessions
            (snd (createCheckoutSession ex_faults (Some ''buyer'') [''c1'', ''c2''] ex_world)))
       = [([19900, 35000], 54900)]"
proof (intro conjI impI)
  assume a: "createCheckoutSession f user cartItemIds w = (Inr secret, w')"
  from createCheckoutSession_line_items[OF a] obtain uid s where
    u: "user = Some uid" and w': "w' = w\<lparr>stripe_sessions := stripe_sessions w @ [s]\<rparr>" and
    l: "list_all2
          (\<lambda>li c. li_quantity li = 1 \<and>
             (\<exists>l. find (\<lambda>l. l_id l = c_listing_id c) (listings (store w)) = Some l \<and>
                  li_unit_amount li = Math_round (l_price l * 100)))
          (s_line_items s) (matched_cart_items (store w) cartItemIds uid)"
    by blast
  from l have "list_all2
      (\<lambda>li c. \<exists>l. find (\<lambda>l. l_id l = c_listing_id c) (listings (store w)) = Some l \<and>
                  li_unit_amount li = Math_round (l_price l * 100))
      (s_line_items s) (matched_cart_items (store w) cartItemIds uid)"
    by (rule list_all2_mono) simp
  with u w' show "\<exists>uid s. user = Some uid
         \<and> w' = w\<lparr>stripe_sessions := stripe_sessions w @ [s]\<rparr>
         \<and> list_all2
              (\<lambda>li c. \<exists>l. find (\<lambda>l. l_id l = c_listing_id c) (listings (store w)) = Some l \<and>
                          li_unit_amount li = Math_round (l_price l * 100))
              (s_line_items s) (matched_cart_items (store w) cartItemIds uid)"
    by blast
next
  show "map (\<lambda>s. (map li_unit_amount (s_line_items s), session_total s))
         (stripe_sessions
            (snd (createCheckoutSession ex_faults (Some ''buyer'') [''c1'', ''c2''] ex_world)))
       = [([19900, 35000], 54900)]"
    by (simp add: ex_defs checkout_defs)
qed

theorem createCheckoutSession_amounts_witness:
  "createCheckoutSession ex_faults (Some ''buyer'') [''c1'', ''c2''] ex_world
     = (Inr ''cs_1_secret'', ex_unpaid_world)
   \<and> (\<exists>s. ex_unpaid_world = ex_world\<lparr>stripe_sessions := stripe_sessions ex_world @ [s]\<rparr>
         \<and> list_all2
              (\<lambda>li c. \<exists>l. find (\<lambda>l. l_id l = c_listing_id c) (listings (store ex_world)) = Some l \<and>
                          li_unit_amount li = Math_round (l_price l * 100))
              (s_line_items s) (matched_cart_items (store ex_world) [''c1'', ''c2''] ''buyer''))"
proof -
  have run: "createCheckoutSession ex_faults (Some ''buyer'') [''c1'', ''c2''] ex_world
     = (Inr ''cs_1_secret'', ex_unpaid_world)"
    by (simp add: ex_defs checkout_defs)
  from createCheckoutSession_amounts
    [of ex_faults "Some ''buyer''" "[''c1'', ''c2'']" ex_world "''cs_1_secret''" ex_unpaid_world]
    run
  show ?thesis by auto
qed

subsection \<open>Begin: the quantity of a cart item plays no part\<close>

lemma matched_with_quantities:
  "matched_cart_items (store (with_quantities q w)) cartItemIds uid
     = map (\<lambda>c. c\<lparr>c_quantity := q c\<rparr>) (matched_cart_items (store w) cartItemIds uid)"
  by (simp add: matched_cart_items_def with_quantities_def filter_map o_def)

lemma select_with_quantities:
  "select_cart_items f (store (with_quantities q w)) cartItemIds uid
     = select_cart_items f (store w) cartItemIds uid"
proof -
  have "cart_row_of (store (with_quantities q w)) (c\<lparr>c_quantity := q c\<rparr>)
          = cart_row_of (store w) c" for c
    by (simp add: cart_row_of_def embed_listings_def embed_books_def with_quantities_def)
  then show ?thesis
    by (simp add: select_cart_items_def matched_with_quantities o_def)
qed

lemma createCheckoutSession_with_quantities:
  "createCheckoutSession f user cartItemIds (with_quantities q w)
     = (fst (createCheckoutSession f user cartItemIds w),
        with_quantities q (snd (createCheckoutSession f user cartItemIds w)))"
  unfolding createCheckoutSession_def select_with_quantities
  by (simp add: with_quantities_def split: option.splits sum.splits)

lemma with_quantities_same: "with_quantities c_quantity w = w"
proof -
  have "map (\<lambda>c. c\<lparr>c_quantity := c_quantity c\<rparr>) cs = cs" for cs :: "cart_item list"
    by (induction cs) simp_all
  then show ?thesis
    by (simp add: with_quantities_def)
qed

lemma handleUpdateQuantity_with_quantities:
  "handleUpdateQuantity e cartItemId n w
     = with_quantities
         (\<lambda>c. if \<not> n < 1 \<and> \<not> e \<and> c_id c = cartItemId then n else c_quantity c) w"
proof (cases "n < 1 \<or> e")
  case True
  then have "(\<lambda>c. if \<not> n < 1 \<and> \<not> e \<and> c_id c = cartItemId then n else c_quantity c) = c_quantity"
    by auto
  with True show ?thesis
    by (auto simp: handleUpdateQuantity_def with_quantities_same)
next
  case False
  have "map (\<lambda>c. if c_id c = cartItemId then c\<lparr>c_quantity := n\<rparr> else c) cs
          = map (\<lambda>c. c\<lparr>c_quantity := if c_id c = cartItemId then n else c_quantity c\<rparr>) cs"
    for cs :: "cart_item list"
    by (induction cs) simp_all
  with False show ?thesis
    by (simp add: handleUpdateQuantity_def with_quantities_def)
qed

lemma line_items_of_listings:
  "list_all2 (\<lambda>li c. li_quantity li = 1 \<and>
                 (\<exists>l. find (\<lambda>l. l_id l = c_listing_id c) ls0 = Some l \<and>
                      li_unit_amount li = Math_round (l_price l * 100))) lis cs \<Longrightarrow>
   \<exists>ls. list_all2 (\<lambda>l c. find (\<lambda>l. l_id l = c_listing_id c) ls0 = Some l) ls cs
      \<and> map li_quantity lis = map (\<lambda>l. 1) ls
      \<and> map li_unit_amount lis = map (\<lambda>l. Math_round (l_price l * 100)) ls
      \<and> sum_list (map (\<lambda>li. li_unit_amount li * li_quantity li) lis)
          = sum_list (map (\<lambda>l. Math_round (l_price l * 100)) ls)"
proof (induction rule: list_all2_induct)
  case Nil
  then show ?case by simp
next
  case (Cons li lis c cs)
  from Cons.hyps(1) obtain l where
    l: "find (\<lambda>l. l_id l = c_listing_id c) ls0 = Some l"
       "li_unit_amount li = Math_round (l_price l * 100)" "li_quantity li = 1"
    by blast
  from Cons.IH obtain ls where
    ls: "list_all2 (\<lambda>l c. find (\<lambda>l. l_id l = c_listing_id c) ls0 = Some l) ls cs"
        "map li_quantity lis = map (\<lambda>l. 1) ls"
        "map li_unit_amount lis = map (\<lambda>l. Math_round (l_price l * 100)) ls"
        "sum_list (map (\<lambda>li. li_unit_amount li * li_quantity li) lis)
          = sum_list (map (\<lambda>l. Math_round (l_price l * 100)) ls)"
    by blast
  show ?case
    by (rule exI[of _ "l # ls"]) (simp add: l ls)
qed

text \<open>
  C10. A session that \<open>createCheckoutSession\<close> creates has, for the listings \<open>ls\<close> of the
  selected cart items, line items of quantity 1 whose amounts are the listings' prices
  (times 100, rounded), so the session charges the sum of these prices; and the call gives
  the same answer and the same session whatever the quantities stored in the cart items
  are (\<open>with_quantities q\<close> rewrites them all), in particular after the cart page has set
  the quantity of a cart item (\<open>handleUpdateQuantity\<close>).
\<close>

theorem createCheckoutSession_quantity_ignored:
  assumes "createCheckoutSession f user cartItemIds w = (Inr secret, w')"
  shows "createCheckoutSession f user cartItemIds (with_quantities q w)
           = (Inr secret, with_quantities q w')
     \<and> createCheckoutSession f user cartItemIds (handleUpdateQuantity e cartItemId n w)
           = (Inr secret, handleUpdateQuantity e cartItemId n w')
     \<and> (\<exists>uid s ls. user = Some uid
          \<and> stripe_sessions w' = stripe_sessions w @ [s]
          \<and> list_all2 (\<lambda>l c. find (\<lambda>l. l_id l = c_listing_id c) (listings (store w)) = Some l)
               ls (matched_cart_items (store w) cartItemIds uid)
          \<and> map li_quantity (s_line_items s) = map (\<lambda>l. 1) ls
          \<and> map li_unit_amount (s_line_items s) = map (\<lambda>l. Math_round (l_price l * 100)) ls
          \<and> session_total s = sum_list (map (\<lambda>l. Math_round (l_price l * 100)) ls))"
proof (intro conjI)
  show "createCheckoutSession f user cartItemIds (with_quantities q w)
           = (Inr secret, with_quantities q w')"
    by (simp add: createCheckoutSession_with_quantities assms)
next
  show "createCheckoutSession f user cartItemIds (handleUpdateQuantity e cartItemId n w)
           = (Inr secret, handleUpdateQuantity e cartItemId n w')"
    unfolding handleUpdateQuantity_with_quantities
    by (simp add: createCheckoutSession_with_quantities assms)
next
  from createCheckoutSession_line_items[OF assms] obtain uid s where
    u: "user = Some uid" and w': "w' = w\<lparr>stripe_sessions := stripe_sessions w @ [s]\<rparr>" and
    l: "list_all2
          (\<lambda>li c. li_quantity li = 1 \<and>
             (\<exists>l. find (\<lambda>l. l_id l = c_listing_id c) (listings (store w)) = Some l \<and>
                  li_unit_amount li = Math_round (l_price l * 100)))
          (s_line_items s) (matched_cart_items (store w) cartItemIds uid)"
    by blast
  from line_items_of_listings[OF l] obtain ls where
    ls: "list_all2 (\<lambda>l c. find (\<lambda>l. l_id l = c_listing_id c) (listings (store w)) = Some l)
           ls (matched_cart_items (store w) cartItemIds uid)"
        "map li_quantity (s_line_items s) = map (\<lambda>l. 1) ls"
        "map li_unit_amount (s_line_items s) = map (\<lambda>l. Math_round (l_price l * 100)) ls"
        "sum_list (map (\<lambda>li. li_unit_amount li * li_quantity li) (s_line_items s))
          = sum_list (map (\<lambda>l. Math_round (l_price l * 100)) ls)"
    by blast
  have "stripe_sessions w' = stripe_sessions w @ [s]"
    by (simp add: w')
  moreover have "session_total s = sum_list (map (\<lambda>l. Math_round (l_price l * 100)) ls)"
    by (simp add: session_total_def ls(4))
  ultimately show "\<exists>uid s ls. user = Some uid
          \<and> stripe_sessions w' = stripe_sessions w @ [s]
          \<and> list_all2 (\<lambda>l c. find (\<lambda>l. l_id l = c_listing_id c) (listings (store w)) = Some l)
               ls (matched_cart_items (store w) cartItemIds uid)
          \<and> map li_quantity (s_line_items s) = map (\<lambda>l. 1) ls
          \<and> map li_unit_amount (s_line_items s) = map (\<lambda>l. Math_round (l_price l * 100)) ls
          \<and> session_total s = sum_list (map (\<lambda>l. Math_round (l_price l * 100)) ls)"
    using u ls(1,2,3) by blast
qed

text \<open>In the example the second cart item has quantity 3; with every quantity set to 7, or
  with the quantity of the first cart item set to 5 by the cart page, the call opens the
  same session, which charges 199 + 350 in minor units.\<close>

theorem createCheckoutSession_quantity_ignored_witness:
  "createCheckoutSession ex_faults (Some ''buyer'') [''c1'', ''c2''] ex_world
     = (Inr ''cs_1_secret'', ex_unpaid_world)
   \<and> createCheckoutSession ex_faults (Some ''buyer'') [''c1'', ''c2'']
        (with_quantities (\<lambda>c. 7) ex_world)
     = (Inr ''cs_1_secret'', with_quantities (\<lambda>c. 7) ex_unpaid_world)
   \<and> createCheckoutSession ex_faults (Some ''buyer'') [''c1'', ''c2'']
        (handleUpdateQuantity False ''c1'' 5 ex_world)
     = (Inr ''cs_1_secret'', handleUpdateQuantity False ''c1'' 5 ex_unpaid_world)
   \<and> map c_quantity (cart_items (store ex_world)) = [1, 3, 1]
   \<and> map c_quantity (cart_items (store (handleUpdateQuantity False ''c1'' 5 ex_world)))
       = [5, 3, 1]
   \<and> map session_total (stripe_sessions ex_unpaid_world) = [54900]"
proof -
  have run: "createCheckoutSession ex_faults (Some ''buyer'') [''c1'', ''c2''] ex_world
     = (Inr ''cs_1_secret'', ex_unpaid_world)"
    by (simp add: ex_defs checkout_defs)
  from createCheckoutSession_quantity_ignored[OF run, of "\<lambda>c. 7" False "''c1''" 5]
  have "createCheckoutSession ex_faults (Some ''buyer'') [''c1'', ''c2'']
        (with_quantities (\<lambda>c. 7) ex_world)
     = (Inr ''cs_1_secret'', with_quantities (\<lambda>c. 7) ex_unpaid_world)"
    and "createCheckoutSession ex_faults (Some ''buyer'') [''c1'', ''c2'']
        (handleUpdateQuantity False ''c1'' 5 ex_world)
     = (Inr ''cs_1_secret'', handleUpdateQuantity False ''c1'' 5 ex_unpaid_world)"
    by blast+
  moreover have "map c_quantity (cart_items (store ex_world)) = [1, 3, 1]"
    by (simp add: ex_defs)
  moreover have "map c_quantity
      (cart_items (store (handleUpdateQuantity False ''c1'' 5 ex_world))) = [5, 3, 1]"
    by (simp add: ex_defs handleUpdateQuantity_def)
  moreover have "map session_total (stripe_sessions ex_unpaid_world) = [54900]"
    by (simp add: ex_defs session_total_def)
  ultimately show ?thesis using run by blast
qed

subsection \<open>Finalize: which failures stop the call\<close>

text \<open>When \<open>completeCheckout\<close> returns success, the store accepted the insert of every
  order and the deletion of the cart items.\<close>

lemma completeCheckout_checked_writes:
  assumes "completeCheckout f user sessionId w = (Inr Success, w')"
  shows "\<not> cart_delete_fails f
     \<and> (\<exists>uid s os. user = Some uid
           \<and> retrieve_session f (stripe_sessions w) sessionId = Inr s
           \<and> orders (store w') = orders (store w) @ os
           \<and> list_all2 (inserted f uid s) os
                (map (cart_row_of (store w))
                   (matched_cart_items (store w) (metadata_cart_item_ids s) uid)))"
proof -
  from completeCheckout_Success[OF assms] obtain uid s st1 where
    u: "user = Some uid" and s: "retrieve_session f (stripe_sessions w) sessionId = Inr s" and
    c: "create_orders f uid s (map (cart_row_of (store w))
            (matched_cart_items (store w) (metadata_cart_item_ids s) uid)) (store w)
         = (None, st1)" and
    d: "\<not> cart_delete_fails f" and
    w': "w' = w\<lparr>store := delete_cart_items (metadata_cart_item_ids s) st1\<rparr>"
    by blast
  from create_orders_None[OF c] obtain os where
    os: "orders st1 = orders (store w) @ os"
        "list_all2 (inserted f uid s) os
           (map (cart_row_of (store w))
              (matched_cart_items (store w) (metadata_cart_item_ids s) uid))"
    by blast
  have "orders (store w') = orders (store w) @ os"
    by (simp add: w' delete_cart_items_def os(1))
  with d u s os(2) show ?thesis by blast
qed

text \<open>
  C1. The specification lets finalize return success only if every order insert, every
  listing status update and the cart deletion succeeded, a failed write stopping the call
  with an error. The insert of an order and the deletion of the cart items do stop the
  call when they fail (\<open>completeCheckout_checked_writes\<close>); the update of a listing does
  not. With a store that answers every update of \<^verbatim>\<open>listings\<close> with an error,
  \<open>completeCheckout\<close> on the paid session of the example inserts both orders, deletes the
  buyer's cart items, leaves both listings \<open>available\<close>, and returns success.
\<close>

theorem completeCheckout_update_failure_unnoticed:
  "completeCheckout (ex_faults\<lparr>listing_update_fails := (\<lambda>lid. True)\<rparr>) (Some ''buyer'') ''cs_1''
     ex_paid_world
   = (Inr Success,
      ex_paid_world
        \<lparr>store := ex_store
           \<lparr>orders := ex_orders,
            cart_items := [\<lparr>c_id = ''c3'', c_buyer_id = ''other'', c_listing_id = ''L1'',
                            c_quantity = 1\<rparr>]\<rparr>\<rparr>)"
  by (simp add: ex_defs checkout_defs)

subsection \<open>Finalize: the effects of a call that succeeds\<close>

text \<open>
  After a call of \<open>completeCheckout\<close> that returns success, the orders are the earlier ones
  followed by one order per selected cart item (buyer the caller, seller and amount from
  the listing, status \<open>completed\<close>, payment the session's \<^verbatim>\<open>payment_intent\<close>); every listing
  of a selected cart item whose update the store carried out is \<open>sold\<close>; and no cart item
  with an id of the session's metadata is left.
\<close>

lemma completeCheckout_effects:
  assumes "completeCheckout f user sessionId w = (Inr Success, w')"
  shows "\<exists>uid s os. user = Some uid
     \<and> retrieve_session f (stripe_sessions w) sessionId = Inr s
     \<and> s_payment_status s = ''paid''
     \<and> orders (store w') = orders (store w) @ os
     \<and> list_all2
          (\<lambda>ord c. \<exists>l. find (\<lambda>l. l_id l = c_listing_id c) (listings (store w)) = Some l
                      \<and> ord = \<lparr>o_buyer_id = uid, o_seller_id = l_seller_id l,
                               o_listing_id = c_listing_id c, o_total_amount = l_price l,
                               o_status = ''completed'', o_payment_id = s_payment_intent s\<rparr>)
          os (matched_cart_items (store w) (metadata_cart_item_ids s) uid)
     \<and> (\<forall>c \<in> set (matched_cart_items (store w) (metadata_cart_item_ids s) uid).
           \<not> listing_update_fails f (c_listing_id c) \<longrightarrow>
           (\<forall>l \<in> set (listings (store w')). l_id l = c_listing_id c \<longrightarrow> l_status l = ''sold''))
     \<and> (\<forall>c \<in> set (cart_items (store w')). c_id c \<notin> set (metadata_cart_item_ids s))"
proof -
  from completeCheckout_Success[OF assms] obtain uid s st1 where
    u: "user = Some uid" and s: "retrieve_session f (stripe_sessions w) sessionId = Inr s" and
    paid: "s_payment_status s = ''paid''" and
    c: "create_orders f uid s (map (cart_row_of (store w))
            (matched_cart_items (store w) (metadata_cart_item_ids s) uid)) (store w)
         = (None, st1)" and
    w': "w' = w\<lparr>store := delete_cart_items (metadata_cart_item_ids s) st1\<rparr>"
    by blast
  let ?cs = "matched_cart_items (store w) (metadata_cart_item_ids s) uid"
  from create_orders_None[OF c] obtain os where
    os: "orders st1 = orders (store w) @ os"
        "list_all2 (inserted f uid s) os (map (cart_row_of (store w)) ?cs)"
    by blast
  have 1: "orders (store w') = orders (store w) @ os"
    by (simp add: w' delete_cart_items_def os(1))
  have "list_all2 (\<lambda>ord c. inserted f uid s ord (cart_row_of (store w) c)) os ?cs"
    using os(2) by (simp add: list_all2_map2)
  then have 2: "list_all2
          (\<lambda>ord c. \<exists>l. find (\<lambda>l. l_id l = c_listing_id c) (listings (store w)) = Some l
                      \<and> ord = \<lparr>o_buyer_id = uid, o_seller_id = l_seller_id l,
                               o_listing_id = c_listing_id c, o_total_amount = l_price l,
                               o_status = ''completed'', o_payment_id = s_payment_intent s\<rparr>)
          os ?cs"
    by (rule list_all2_mono)
       (auto simp: inserted_def cart_row_of_def embed_listings_def order_of_def
          split: option.splits)
  have 3: "\<forall>l \<in> set (listings (store w')). l_id l = c_listing_id c \<longrightarrow> l_status l = ''sold''"
    if "c \<in> set ?cs" "\<not> listing_update_fails f (c_listing_id c)" for c
  proof -
    from that(1) have "cart_row_of (store w) c \<in> set (map (cart_row_of (store w)) ?cs)"
      by simp
    moreover from that(2)
    have "\<not> listing_update_fails f (r_listing_id (cart_row_of (store w) c))"
      by (simp add: cart_row_of_def)
    ultimately
    have "\<forall>l \<in> set (listings st1).
            l_id l = r_listing_id (cart_row_of (store w) c) \<longrightarrow> l_status l = ''sold''"
      by (rule create_orders_sold[OF c])
    then show ?thesis
      by (simp add: w' delete_cart_items_def cart_row_of_def)
  qed
  have 4: "\<forall>c \<in> set (cart_items (store w')). c_id c \<notin> set (metadata_cart_item_ids s)"
    by (simp add: w' delete_cart_items_def)
  from u s paid 1 2 3 4 show ?thesis by blast
qed

text \<open>
  C3. The specification has, after a successful finalize on a paid session, one order
  for each cart item of the caller matched by the session's metadata, each such listing
  sold, and the matched cart items deleted. The orders and the cart are so
  (\<open>completeCheckout_effects\<close>), the listings are not: the update's answer is dropped, so a
  listing whose update fails stays as it was while the call still succeeds. With a store
  that rejects the update of \<open>L2\<close> only, the call on the paid session of the example
  returns success and leaves \<open>L1\<close> sold and \<open>L2\<close> available, \<open>L2\<close> being the listing of a
  matched cart item.
\<close>

theorem completeCheckout_success_listing_not_sold:
  "fst (completeCheckout (ex_faults\<lparr>listing_update_fails := (\<lambda>lid. lid = ''L2'')\<rparr>)
          (Some ''buyer'') ''cs_1'' ex_paid_world) = Inr Success
   \<and> map (\<lambda>l. (l_id l, l_status l))
        (listings (store (snd (completeCheckout
           (ex_faults\<lparr>listing_update_fails := (\<lambda>lid. lid = ''L2'')\<rparr>)
           (Some ''buyer'') ''cs_1'' ex_paid_world))))
     = [(''L1'', ''sold''), (''L2'', ''available'')]
   \<and> map c_listing_id
        (matched_cart_items (store ex_paid_world) [''c1'', ''c2''] ''buyer'') = [''L1'', ''L2'']"
  by (simp add: ex_defs checkout_defs)

subsection \<open>Finalize: a second call\<close>

lemma retrieve_session_again:
  assumes "retrieve_session f ss sessionId = Inr s"
  shows "retrieve_session f2 ss sessionId = (if stripe_retrieve_fails f2 then Inl StripeError else Inr s)"
  using assms by (auto simp: retrieve_session_def split: if_splits option.splits)

lemma matched_after_delete:
  "matched_cart_items (delete_cart_items cartItemIds st) cartItemIds uid = []"
  by (auto simp: matched_cart_items_def delete_cart_items_def filter_empty_conv)

lemma delete_cart_items_twice:
  "delete_cart_items cartItemIds (delete_cart_items cartItemIds st)
     = delete_cart_items cartItemIds st"
  by (simp add: delete_cart_items_def)

text \<open>
  C2. Let a call of \<open>completeCheckout\<close> on a session have returned success, giving the world
  \<open>w1\<close>. In \<open>w1\<close> the query by the ids of the session's metadata selects no cart item, for
  any caller. Another call with the same session handle leaves \<open>w1\<close> as it is, so it adds
  no order; and when the provider and the store answer it (the retrieval, the query and
  the deletion report no error) it returns success.
\<close>

theorem completeCheckout_second_call:
  assumes "completeCheckout f user sessionId w = (Inr Success, w1)"
  shows "snd (completeCheckout f2 user2 sessionId w1) = w1
     \<and> (\<exists>s. retrieve_session f (stripe_sessions w1) sessionId = Inr s
           \<and> (\<forall>u. matched_cart_items (store w1) (metadata_cart_item_ids s) u = []))
     \<and> (\<not> stripe_retrieve_fails f2 \<and> \<not> cart_select_fails f2 \<and> \<not> cart_delete_fails f2 \<longrightarrow>
          completeCheckout f2 user sessionId w1 = (Inr Success, w1))"
proof -
  from completeCheckout_Success[OF assms] obtain uid s st1 where
    u: "user = Some uid" and s: "retrieve_session f (stripe_sessions w) sessionId = Inr s" and
    paid: "s_payment_status s = ''paid''" and
    w1: "w1 = w\<lparr>store := delete_cart_items (metadata_cart_item_ids s) st1\<rparr>"
    by blast
  let ?ids = "metadata_cart_item_ids s"
  have ss: "stripe_sessions w1 = stripe_sessions w"
    by (simp add: w1)
  have st: "store w1 = delete_cart_items ?ids st1"
    by (simp add: w1)
  have m: "matched_cart_items (store w1) ?ids u = []" for u
    unfolding st by (rule matched_after_delete)
  have r2: "retrieve_session f2 (stripe_sessions w1) sessionId
              = (if stripe_retrieve_fails f2 then Inl StripeError else Inr s)"
    unfolding ss by (rule retrieve_session_again[OF s])
  have same: "w1\<lparr>store := delete_cart_items ?ids (store w1)\<rparr> = w1"
    unfolding st delete_cart_items_twice by (simp add: w1)
  have run: "completeCheckout f2 (Some u) sessionId w1
      = (if stripe_retrieve_fails f2 then (Inl StripeError, w1)
         else if cart_select_fails f2 then (Inl (Error ''Failed to fetch cart items''), w1)
         else if cart_delete_fails f2 then (Inl PostgrestError, w1)
         else (Inr Success, w1))" for u
    by (simp add: completeCheckout_def r2 paid select_cart_items_def m same)
  have 1: "snd (completeCheckout f2 user2 sessionId w1) = w1"
  proof (cases user2)
    case None
    then show ?thesis by (simp add: completeCheckout_def)
  next
    case (Some u2)
    then show ?thesis by (simp add: run)
  qed
  have 2: "\<exists>s. retrieve_session f (stripe_sessions w1) sessionId = Inr s
           \<and> (\<forall>u. matched_cart_items (store w1) (metadata_cart_item_ids s) u = [])"
    using s m unfolding ss by blast
  have 3: "\<not> stripe_retrieve_fails f2 \<and> \<not> cart_select_fails f2 \<and> \<not> cart_delete_fails f2 \<longrightarrow>
          completeCheckout f2 user sessionId w1 = (Inr Success, w1)"
    by (simp add: u run)
  from 1 2 3 show ?thesis by blast
qed

text \<open>The example: the first call on the paid session gives the world \<open>ex_finalized_world\<close>;
  the second call returns success and changes nothing.\<close>

theorem completeCheckout_second_call_witness:
  "completeCheckout ex_faults (Some ''buyer'') ''cs_1'' ex_paid_world
     = (Inr Success, ex_finalized_world)
   \<and> completeCheckout ex_faults (Some ''buyer'') ''cs_1'' ex_finalized_world
     = (Inr Success, ex_finalized_world)
   \<and> orders (store ex_finalized_world) = ex_orders"
proof -
  have first: "completeCheckout ex_faults (Some ''buyer'') ''cs_1'' ex_paid_world
     = (Inr Success, ex_finalized_world)"
    by (simp add: ex_defs ex_finalized_world_def checkout_defs)
  have ok: "\<not> stripe_retrieve_fails ex_faults \<and> \<not> cart_select_fails ex_faults
              \<and> \<not> cart_delete_fails ex_faults"
    by (simp add: ex_faults_def)
  from completeCheckout_second_call[OF first, of ex_faults] ok
  have "completeCheckout ex_faults (Some ''buyer'') ''cs_1'' ex_finalized_world
     = (Inr Success, ex_finalized_world)"
    by blast
  moreover have "orders (store ex_finalized_world) = ex_orders"
    by (simp add: ex_finalized_world_def)
  ultimately show ?thesis using first by blast
qed

section \<open>Properties of the messages route\<close>

subsection \<open>The grouping of messages into conversations\<close>

lemma first_seen_snoc:
  "first_seen (ks @ [k]) = (if k \<in> set ks then first_seen ks else first_seen ks @ [k])"
  by (simp add: first_seen_def)

lemma set_first_seen [simp]: "set (first_seen ks) = set ks"
  by (simp add: first_seen_def)

lemma distinct_first_seen [simp]: "distinct (first_seen ks)"
  by (simp add: first_seen_def)

lemma Map_push_map:
  "Map_push k x (map (\<lambda>k'. (k', g k')) ks) = map (\<lambda>k'. (k', if k' = k then g k' @ [x] else g k')) ks"
  by (simp add: Map_push_def o_def)

lemma Map_has_map: "Map_has k (map (\<lambda>k'. (k', g k')) ks) = (k \<in> set ks)"
  by (simp add: Map_has_def o_def)

lemma with_user_snoc:
  "with_user uid k (xs @ [x]) = (if other_user uid x = k then with_user uid k xs @ [x] else with_user uid k xs)"
  by (simp add: with_user_def)

lemma group_closed_form:
  "foldl (group_message uid) [] data
     = map (\<lambda>k. (k, with_user uid k data)) (first_seen (map (other_user uid) data))"
proof (induction data rule: rev_induct)
  case Nil
  then show ?case by (simp add: first_seen_def)
next
  case (snoc x xs)
  let ?k = "other_user uid x"
  let ?ks = "first_seen (map (other_user uid) xs)"
  have step: "foldl (group_message uid) [] (xs @ [x])
      = group_message uid (map (\<lambda>k. (k, with_user uid k xs)) ?ks) x"
    by (simp add: snoc.IH)
  show ?case
  proof (cases "?k \<in> set (map (other_user uid) xs)")
    case True
    then have "group_message uid (map (\<lambda>k. (k, with_user uid k xs)) ?ks) x
       = map (\<lambda>k'. (k', if k' = ?k then with_user uid k' xs @ [x] else with_user uid k' xs)) ?ks"
      by (simp add: group_message_def Map_has_map Map_push_map Let_def)
    also have "\<dots> = map (\<lambda>k. (k, with_user uid k (xs @ [x]))) ?ks"
      by (rule map_cong) (auto simp: with_user_snoc)
    also have "\<dots> = map (\<lambda>k. (k, with_user uid k (xs @ [x])))
                        (first_seen (map (other_user uid) (xs @ [x])))"
      using True by (simp add: first_seen_snoc)
    finally show ?thesis using step by simp
  next
    case False
    then have "\<forall>m \<in> set xs. other_user uid m \<noteq> ?k"
      by (metis image_eqI set_map)
    then have e: "with_user uid ?k xs = []"
      by (simp add: with_user_def filter_empty_conv)
    from False have "group_message uid (map (\<lambda>k. (k, with_user uid k xs)) ?ks) x
       = Map_push ?k x (map (\<lambda>k. (k, with_user uid k xs)) ?ks) @ [(?k, [x])]"
      by (simp add: group_message_def Map_has_map Map_push_def Let_def)
    also have "Map_push ?k x (map (\<lambda>k. (k, with_user uid k xs)) ?ks)
                = map (\<lambda>k. (k, with_user uid k (xs @ [x]))) ?ks"
      unfolding Map_push_map by (rule map_cong) (auto simp: with_user_snoc)
    also have "map (\<lambda>k. (k, with_user uid k (xs @ [x]))) ?ks @ [(?k, [x])]
               = map (\<lambda>k. (k, with_user uid k (xs @ [x]))) (?ks @ [?k])"
      by (simp add: with_user_snoc e)
    also have "\<dots> = map (\<lambda>k. (k, with_user uid k (xs @ [x])))
                        (first_seen (map (other_user uid) (xs @ [x])))"
      using False by (simp add: first_seen_snoc)
    finally show ?thesis using step by simp
  qed
qed

lemma order_created_at_desc:
  "sorted_wrt (\<lambda>a b. m_created_at b \<le> m_created_at a) (order_created_at False ms)"
proof -
  have "sorted (map m_created_at (sort_key m_created_at ms))"
    by (rule sorted_sort_key)
  then have "sorted_wrt (\<lambda>a b. m_created_at a \<le> m_created_at b) (sort_key m_created_at ms)"
    by (simp add: sorted_map)
  then show ?thesis
    by (simp add: order_created_at_def sorted_wrt_rev)
qed

lemma set_order_created_at [simp]: "set (order_created_at asc ms) = set ms"
  by (simp add: order_created_at_def)

lemma length_filter_order_created_at:
  "length (filter P (order_created_at asc ms)) = length (filter P ms)"
proof -
  have "length (filter P (sort_key m_created_at ms)) = length (filter P ms)"
    by (simp add: filter_sort)
  moreover have "length (filter P (rev (sort_key m_created_at ms)))
                   = length (filter P (sort_key m_created_at ms))"
    by (simp add: rev_filter[symmetric])
  ultimately show ?thesis
    by (simp add: order_created_at_def)
qed

lemma set_user_messages:
  "set (user_messages uid st)
     = {m \<in> set (messages st). m_sender_id m = uid \<or> m_receiver_id m = uid}"
  by (auto simp: user_messages_def)

lemma list_conversations_closed_form:
  "list_conversations f uid st
     = map (\<lambda>k. \<lparr>userId = k,
                  profile = profile_lookup f st
                    (first_seen (map (other_user uid) (user_messages uid st))) k,
                  lastMessage = first_message (with_user uid k (user_messages uid st)),
                  unreadCount = unread uid (with_user uid k (user_messages uid st))\<rparr>)
         (first_seen (map (other_user uid) (user_messages uid st)))"
  by (simp add: list_conversations_def group_closed_form Let_def o_def)

lemma first_message_append:
  "ms \<noteq> [] \<Longrightarrow> first_message (ms @ ns) = first_message ms"
  by (cases ms) (simp_all add: first_message_def)

text \<open>The newest messages of the conversations, in the order of the conversations, are
  taken from the list in its order; so they are ordered as the list is.\<close>

lemma first_messages_sorted:
  "sorted_wrt (\<lambda>a b. m_created_at b \<le> m_created_at a) data \<Longrightarrow>
   \<exists>hs. map (\<lambda>k. first_message (with_user uid k data)) (first_seen (map (other_user uid) data))
          = map Some hs
      \<and> set hs \<subseteq> set data
      \<and> sorted_wrt (\<lambda>a b. m_created_at b \<le> m_created_at a) hs"
proof (induction data rule: rev_induct)
  case Nil
  then show ?case by (simp add: first_seen_def)
next
  case (snoc x xs)
  let ?ks = "first_seen (map (other_user uid) xs)"
  from snoc.prems have sx: "sorted_wrt (\<lambda>a b. m_created_at b \<le> m_created_at a) xs"
    and le: "\<forall>y \<in> set xs. m_created_at x \<le> m_created_at y"
    by (auto simp: sorted_wrt_append)
  from snoc.IH[OF sx] obtain hs where
    hs: "map (\<lambda>k. first_message (with_user uid k xs)) ?ks = map Some hs"
        "set hs \<subseteq> set xs" "sorted_wrt (\<lambda>a b. m_created_at b \<le> m_created_at a) hs"
    by blast
  have ne: "with_user uid k xs \<noteq> []" if "k \<in> set ?ks" for k
    using that by (auto simp: with_user_def filter_empty_conv)
  have old: "map (\<lambda>k. first_message (with_user uid k (xs @ [x]))) ?ks = map Some hs"
  proof -
    have "map (\<lambda>k. first_message (with_user uid k (xs @ [x]))) ?ks
            = map (\<lambda>k. first_message (with_user uid k xs)) ?ks"
      by (rule map_cong) (auto simp: with_user_snoc first_message_append ne)
    with hs(1) show ?thesis by simp
  qed
  show ?case
  proof (cases "other_user uid x \<in> set (map (other_user uid) xs)")
    case True
    then have "first_seen (map (other_user uid) (xs @ [x])) = ?ks"
      by (simp add: first_seen_snoc)
    with old hs(2,3) show ?thesis
      by (intro exI[of _ hs]) auto
  next
    case False
    then have "\<forall>m \<in> set xs. other_user uid m \<noteq> other_user uid x"
      by (metis image_eqI set_map)
    then have e: "with_user uid (other_user uid x) xs = []"
      by (simp add: with_user_def filter_empty_conv)
    from False have ks: "first_seen (map (other_user uid) (xs @ [x])) = ?ks @ [other_user uid x]"
      by (simp add: first_seen_snoc)
    have "map (\<lambda>k. first_message (with_user uid k (xs @ [x])))
            (first_seen (map (other_user uid) (xs @ [x]))) = map Some (hs @ [x])"
      unfolding ks using old by (simp add: with_user_snoc e first_message_def)
    moreover have "set (hs @ [x]) \<subseteq> set (xs @ [x])"
      using hs(2) by auto
    moreover have "sorted_wrt (\<lambda>a b. m_created_at b \<le> m_created_at a) (hs @ [x])"
      using hs(2,3) le by (auto simp: sorted_wrt_append)
    ultimately show ?thesis by blast
  qed
qed

text \<open>The first of the messages with one counterpart is their newest.\<close>

lemma first_message_newest:
  assumes "sorted_wrt (\<lambda>a b. m_created_at b \<le> m_created_at a) data"
    and "k \<in> set (map (other_user uid) data)"
  shows "\<exists>m. first_message (with_user uid k data) = Some m \<and> m \<in> set data
           \<and> other_user uid m = k
           \<and> (\<forall>m' \<in> set data. other_user uid m' = k \<longrightarrow> m_created_at m' \<le> m_created_at m)"
proof -
  from assms(2) have "with_user uid k data \<noteq> []"
    by (auto simp: with_user_def filter_empty_conv)
  then obtain m ms where c: "with_user uid k data = m # ms"
    by (cases "with_user uid k data") auto
  have "sorted_wrt (\<lambda>a b. m_created_at b \<le> m_created_at a) (with_user uid k data)"
    unfolding with_user_def by (rule sorted_wrt_filter[OF assms(1)])
  with c have "\<forall>m' \<in> set (with_user uid k data). m_created_at m' \<le> m_created_at m"
    by auto
  then have "\<forall>m' \<in> set data. other_user uid m' = k \<longrightarrow> m_created_at m' \<le> m_created_at m"
    by (simp add: with_user_def)
  moreover have "m \<in> set (with_user uid k data)"
    by (simp add: c)
  then have "m \<in> set data" "other_user uid m = k"
    by (simp_all add: with_user_def)
  ultimately show ?thesis
    by (simp add: c first_message_def)
qed

lemmas ex_msg_defs =
  ex_m1_def ex_m2_def ex_m3_def ex_m4_def ex_inbox_def ex_msg_faults_def ex_conversations_def

lemmas msg_defs =
  GET_def POST_def list_conversations_def user_messages_def thread_messages_def
  order_created_at_def group_message_def Map_has_def Map_push_def other_user_def
  unread_def first_message_def profile_lookup_def mark_read_def unread_from_def

subsection \<open>The order of the conversation list\<close>

text \<open>The conversations of the list are those of the counterparts of the caller's
  messages, each once.\<close>

lemma list_conversations_counterparts:
  "distinct (map userId (list_conversations f uid st))
   \<and> set (map userId (list_conversations f uid st))
       = other_user uid `
           {m \<in> set (messages st). m_sender_id m = uid \<or> m_receiver_id m = uid}"
proof -
  have "map userId (list_conversations f uid st)
          = first_seen (map (other_user uid) (user_messages uid st))"
    unfolding list_conversations_closed_form by (simp add: o_def)
  then show ?thesis
    by (simp add: set_user_messages)
qed

lemma list_conversations_last_messages:
  assumes cs: "cs = list_conversations f uid st"
  shows "(\<exists>hs. map lastMessage cs = map Some hs
            \<and> sorted_wrt (\<lambda>a b. m_created_at b \<le> m_created_at a) hs)
     \<and> (\<forall>c \<in> set cs. \<exists>m. lastMessage c = Some m \<and> m \<in> set (messages st)
            \<and> (m_sender_id m = uid \<or> m_receiver_id m = uid)
            \<and> other_user uid m = userId c
            \<and> (\<forall>m' \<in> set (messages st).
                  (m_sender_id m' = uid \<or> m_receiver_id m' = uid) \<and> other_user uid m' = userId c
                  \<longrightarrow> m_created_at m' \<le> m_created_at m))"
proof -
  let ?data = "user_messages uid st"
  let ?ks = "first_seen (map (other_user uid) ?data)"
  have sorted: "sorted_wrt (\<lambda>a b. m_created_at b \<le> m_created_at a) ?data"
    unfolding user_messages_def by (rule order_created_at_desc)
  have last: "map lastMessage cs = map (\<lambda>k. first_message (with_user uid k ?data)) ?ks"
    unfolding cs list_conversations_closed_form by (simp add: o_def)
  from first_messages_sorted[OF sorted, of uid] last
  have 1: "\<exists>hs. map lastMessage cs = map Some hs
            \<and> sorted_wrt (\<lambda>a b. m_created_at b \<le> m_created_at a) hs"
    by auto
  have 2: "\<exists>m. lastMessage c = Some m \<and> m \<in> set (messages st)
            \<and> (m_sender_id m = uid \<or> m_receiver_id m = uid)
            \<and> other_user uid m = userId c
            \<and> (\<forall>m' \<in> set (messages st).
                  (m_sender_id m' = uid \<or> m_receiver_id m' = uid) \<and> other_user uid m' = userId c
                  \<longrightarrow> m_created_at m' \<le> m_created_at m)"
    if "c \<in> set cs" for c
  proof -
    from that have "c \<in> (\<lambda>k. \<lparr>userId = k,
                  profile = profile_lookup f st ?ks k,
                  lastMessage = first_message (with_user uid k ?data),
                  unreadCount = unread uid (with_user uid k ?data)\<rparr>) ` set ?ks"
      unfolding cs list_conversations_closed_form by simp
    then obtain k where c: "c = \<lparr>userId = k,
                  profile = profile_lookup f st ?ks k,
                  lastMessage = first_message (with_user uid k ?data),
                  unreadCount = unread uid (with_user uid k ?data)\<rparr>"
      and "k \<in> set ?ks"
      by (rule imageE)
    then have k: "k \<in> set ?ks" "userId c = k"
      "lastMessage c = first_message (with_user uid k ?data)"
      by (simp_all add: c)
    from k(1) have "k \<in> set (map (other_user uid) ?data)"
      by simp
    from first_message_newest[OF sorted this] obtain m where
      m: "first_message (with_user uid k ?data) = Some m" "m \<in> set ?data"
         "other_user uid m = k"
         "\<forall>m' \<in> set ?data. other_user uid m' = k \<longrightarrow> m_created_at m' \<le> m_created_at m"
      by blast
    show ?thesis
      using m k(2,3) by (intro exI[of _ m]) (auto simp: set_user_messages)
  qed
  from 1 2 show ?thesis by blast
qed

text \<open>A counterpart with a message newer than every message of another counterpart stands
  before it in the list.\<close>

lemma list_conversations_before:
  assumes cs: "cs = list_conversations f uid st"
    and m: "m \<in> set (messages st)" "m_sender_id m = uid \<or> m_receiver_id m = uid"
    and b: "b \<in> set (map userId cs)"
    and newer: "\<forall>m' \<in> set (messages st).
                 (m_sender_id m' = uid \<or> m_receiver_id m' = uid) \<and> other_user uid m' = b
                 \<longrightarrow> m_created_at m' < m_created_at m"
  shows "\<exists>i j. i < j \<and> j < length cs \<and> userId (cs ! i) = other_user uid m \<and> userId (cs ! j) = b"
proof -
  let ?a = "other_user uid m"
  from list_conversations_last_messages[OF cs] obtain hs where
    hs: "map lastMessage cs = map Some hs"
        "sorted_wrt (\<lambda>a b. m_created_at b \<le> m_created_at a) hs"
    and newest: "\<forall>c \<in> set cs. \<exists>m. lastMessage c = Some m \<and> m \<in> set (messages st)
            \<and> (m_sender_id m = uid \<or> m_receiver_id m = uid)
            \<and> other_user uid m = userId c
            \<and> (\<forall>m' \<in> set (messages st).
                  (m_sender_id m' = uid \<or> m_receiver_id m' = uid) \<and> other_user uid m' = userId c
                  \<longrightarrow> m_created_at m' \<le> m_created_at m)"
    by blast
  have len: "length hs = length cs"
    using hs(1) by (metis length_map)
  have nth: "lastMessage (cs ! k) = Some (hs ! k)" if "k < length cs" for k
  proof -
    from that have "map lastMessage cs ! k = lastMessage (cs ! k)" by simp
    moreover from that len have "map Some hs ! k = Some (hs ! k)" by simp
    ultimately show ?thesis using hs(1) by simp
  qed
  from m have "?a \<in> set (map userId cs)"
    using list_conversations_counterparts[of f uid st] unfolding cs by blast
  then obtain i where i: "i < length cs" "userId (cs ! i) = ?a"
    by (auto simp: in_set_conv_nth)
  from b obtain j where j: "j < length cs" "userId (cs ! j) = b"
    by (auto simp: in_set_conv_nth)
  from i(1) have "cs ! i \<in> set cs" by simp
  with newest nth[OF i(1)] i(2) m
  have a_new: "m_created_at m \<le> m_created_at (hs ! i)"
    by fastforce
  from j(1) have "cs ! j \<in> set cs" by simp
  with newest nth[OF j(1)] j(2)
  have "hs ! j \<in> set (messages st)"
       "m_sender_id (hs ! j) = uid \<or> m_receiver_id (hs ! j) = uid"
       "other_user uid (hs ! j) = b"
    by fastforce+
  with newer have b_old: "m_created_at (hs ! j) < m_created_at m"
    by blast
  have "i < j"
  proof (rule ccontr)
    assume "\<not> i < j"
    then consider "i = j" | "j < i" by linarith
    then show False
    proof cases
      case 1
      with a_new b_old show False by simp
    next
      case 2
      from sorted_wrt_nth_less[OF hs(2) 2] i(1) len
      have "m_created_at (hs ! i) \<le> m_created_at (hs ! j)" by simp
      with a_new b_old show False by simp
    qed
  qed
  with i j show ?thesis by blast
qed

text \<open>
  C7. In the conversation list that \<open>GET\<close> answers (no \<^verbatim>\<open>otherUserId\<close>):
  the conversations are those of the counterparts of the caller's messages, each
  counterpart once; every conversation has a last message, and the last messages have
  non-increasing \<^verbatim>\<open>created_at\<close> along the list; the last message of a conversation is a
  message of the caller with that counterpart, at least as new as every message of the
  caller with that counterpart; and a counterpart \<open>a\<close> with a message newer than every
  message with a listed counterpart \<open>b\<close> stands before \<open>b\<close>. In the example the counterpart
  \<open>A\<close> (latest message at 3) comes before \<open>B\<close> (latest at 1).
\<close>

theorem GET_conversations_ordered:
  assumes "GET f (Some uid) None st = ((ConversationList cs, code), st')"
  shows "distinct (map userId cs)
     \<and> set (map userId cs)
         = other_user uid `
             {m \<in> set (messages st). m_sender_id m = uid \<or> m_receiver_id m = uid}
     \<and> (\<exists>hs. map lastMessage cs = map Some hs
            \<and> sorted_wrt (\<lambda>a b. m_created_at b \<le> m_created_at a) hs)
     \<and> (\<forall>c \<in> set cs. \<exists>m. lastMessage c = Some m \<and> m \<in> set (messages st)
            \<and> (m_sender_id m = uid \<or> m_receiver_id m = uid)
            \<and> other_user uid m = userId c
            \<and> (\<forall>m' \<in> set (messages st).
                  (m_sender_id m' = uid \<or> m_receiver_id m' = uid) \<and> other_user uid m' = userId c
                  \<longrightarrow> m_created_at m' \<le> m_created_at m))
     \<and> (\<forall>m b. m \<in> set (messages st) \<and> (m_sender_id m = uid \<or> m_receiver_id m = uid)
            \<and> b \<in> set (map userId cs)
            \<and> (\<forall>m' \<in> set (messages st).
                  (m_sender_id m' = uid \<or> m_receiver_id m' = uid) \<and> other_user uid m' = b
                  \<longrightarrow> m_created_at m' < m_created_at m)
            \<longrightarrow> (\<exists>i j. i < j \<and> j < length cs \<and> userId (cs ! i) = other_user uid m
                         \<and> userId (cs ! j) = b))
     \<and> code = 200 \<and> st' = st"
proof -
  from assms have cs: "cs = list_conversations f uid st" and rest: "code = 200" "st' = st"
    by (auto simp: GET_def split: if_splits)
  note 1 = list_conversations_counterparts[of f uid st, folded cs]
  note 2 = list_conversations_last_messages[OF cs]
  have 3: "\<exists>i j. i < j \<and> j < length cs \<and> userId (cs ! i) = other_user uid m
                         \<and> userId (cs ! j) = b"
    if "m \<in> set (messages st) \<and> (m_sender_id m = uid \<or> m_receiver_id m = uid)
            \<and> b \<in> set (map userId cs)
            \<and> (\<forall>m' \<in> set (messages st).
                  (m_sender_id m' = uid \<or> m_receiver_id m' = uid) \<and> other_user uid m' = b
                  \<longrightarrow> m_created_at m' < m_created_at m)" for m b
    using list_conversations_before[OF cs, of m b] that by blast
  from 1 2 3 rest show ?thesis by blast
qed

text \<open>In the example \<open>A\<close>'s message at 3 is newer than every message with \<open>B\<close>, so \<open>A\<close>
  stands before \<open>B\<close>.\<close>

theorem GET_conversations_ordered_witness:
  "GET ex_msg_faults (Some ''me'') None ex_inbox = ((ConversationList ex_conversations, 200), ex_inbox)
   \<and> map userId ex_conversations = [''A'', ''B'']
   \<and> distinct (map userId ex_conversations)
   \<and> (\<exists>hs. map lastMessage ex_conversations = map Some hs
          \<and> sorted_wrt (\<lambda>a b. m_created_at b \<le> m_created_at a) hs)
   \<and> (\<exists>i j. i < j \<and> j < length ex_conversations
          \<and> userId (ex_conversations ! i) = other_user ''me'' ex_m3
          \<and> userId (ex_conversations ! j) = ''B'')
   \<and> other_user ''me'' ex_m3 = ''A''"
proof -
  have run: "GET ex_msg_faults (Some ''me'') None ex_inbox
               = ((ConversationList ex_conversations, 200), ex_inbox)"
    by (simp add: ex_msg_defs msg_defs Let_def)
  note ord = GET_conversations_ordered[OF run]
  from ord have d: "distinct (map userId ex_conversations)"
    by blast
  from ord
  have s: "\<exists>hs. map lastMessage ex_conversations = map Some hs
          \<and> sorted_wrt (\<lambda>a b. m_created_at b \<le> m_created_at a) hs"
    by blast
  have pre: "ex_m3 \<in> set (messages ex_inbox)
      \<and> (m_sender_id ex_m3 = ''me'' \<or> m_receiver_id ex_m3 = ''me'')
      \<and> ''B'' \<in> set (map userId ex_conversations)
      \<and> (\<forall>m' \<in> set (messages ex_inbox).
            (m_sender_id m' = ''me'' \<or> m_receiver_id m' = ''me'') \<and> other_user ''me'' m' = ''B''
            \<longrightarrow> m_created_at m' < m_created_at ex_m3)"
    by (simp add: ex_msg_defs other_user_def)
  from ord have "\<forall>m b. m \<in> set (messages ex_inbox)
            \<and> (m_sender_id m = ''me'' \<or> m_receiver_id m = ''me'')
            \<and> b \<in> set (map userId ex_conversations)
            \<and> (\<forall>m' \<in> set (messages ex_inbox).
                  (m_sender_id m' = ''me'' \<or> m_receiver_id m' = ''me'') \<and> other_user ''me'' m' = b
                  \<longrightarrow> m_created_at m' < m_created_at m)
            \<longrightarrow> (\<exists>i j. i < j \<and> j < length ex_conversations
                         \<and> userId (ex_conversations ! i) = other_user ''me'' m
                         \<and> userId (ex_conversations ! j) = b)"
    by blast
  with pre have b: "\<exists>i j. i < j \<and> j < length ex_conversations
          \<and> userId (ex_conversations ! i) = other_user ''me'' ex_m3
          \<and> userId (ex_conversations ! j) = ''B''"
    by blast
  have u: "map userId ex_conversations = [''A'', ''B'']"
    by (simp add: ex_conversations_def)
  have o: "other_user ''me'' ex_m3 = ''A''"
    by (simp add: other_user_def ex_m3_def)
  from run u d s b o show ?thesis by blast
qed

subsection \<open>Sending a message\<close>

text \<open>
  C9. For an authenticated caller, \<open>POST\<close> answers 400 "Missing required fields" and leaves
  the store as it is when the receiver id is absent or empty or the content is absent or
  empty. Otherwise, when the store accepts the insert, it appends exactly one message to
  the table, with the caller as sender, the given receiver and content, the given listing
  id or none, and \<open>read\<close> false, and answers that row; when the store rejects the insert it
  answers 500 and the table is unchanged.
\<close>

theorem POST_send_message:
  "((receiverId = None \<or> receiverId = Some [] \<or> content = None \<or> content = Some []) \<longrightarrow>
      POST f (Some uid) receiverId content listingId st
        = ((ErrorBody ''Missing required fields'', 400), st))
   \<and> (receiverId = Some r \<and> r \<noteq> [] \<and> content = Some c \<and> c \<noteq> [] \<longrightarrow>
        (if messages_insert_fails f
         then POST f (Some uid) receiverId content listingId st
                = ((ErrorBody ''Failed to send message'', 500), st)
         else (\<exists>row. POST f (Some uid) receiverId content listingId st
                        = ((Stored row, 200), st\<lparr>messages := messages st @ [row]\<rparr>)
                 \<and> m_sender_id row = uid \<and> m_receiver_id row = r \<and> m_content row = c
                 \<and> m_listing_id row = (if listingId = Some [] then None else listingId)
                 \<and> m_read row = False)))"
  by (auto simp: POST_def Let_def split: option.splits)

theorem POST_send_message_witness:
  "POST ex_msg_faults (Some ''me'') None (Some ''hi'') None ex_inbox
     = ((ErrorBody ''Missing required fields'', 400), ex_inbox)
   \<and> POST ex_msg_faults (Some ''me'') (Some ''B'') (Some []) None ex_inbox
     = ((ErrorBody ''Missing required fields'', 400), ex_inbox)
   \<and> (\<exists>row. POST ex_msg_faults (Some ''me'') (Some ''B'') (Some ''hi'') None ex_inbox
                = ((Stored row, 200), ex_inbox\<lparr>messages := messages ex_inbox @ [row]\<rparr>)
          \<and> m_sender_id row = ''me'' \<and> m_receiver_id row = ''B'' \<and> m_content row = ''hi''
          \<and> m_listing_id row = None \<and> m_read row = False)
   \<and> POST ex_msg_faults (Some ''me'') (Some ''B'') (Some ''hi'') None ex_inbox
     = ((Stored ex_m4, 200), ex_inbox\<lparr>messages := [ex_m1, ex_m2, ex_m3, ex_m4]\<rparr>)"
proof -
  from POST_send_message[of None "Some ''hi''" ex_msg_faults "''me''" None ex_inbox]
  have 1: "POST ex_msg_faults (Some ''me'') None (Some ''hi'') None ex_inbox
     = ((ErrorBody ''Missing required fields'', 400), ex_inbox)"
    by simp
  from POST_send_message[of "Some ''B''" "Some []" ex_msg_faults "''me''" None ex_inbox]
  have 2: "POST ex_msg_faults (Some ''me'') (Some ''B'') (Some []) None ex_inbox
     = ((ErrorBody ''Missing required fields'', 400), ex_inbox)"
    by simp
  have ok: "\<not> messages_insert_fails ex_msg_faults"
    by (simp add: ex_msg_faults_def)
  from POST_send_message
    [of "Some ''B''" "Some ''hi''" ex_msg_faults "''me''" None ex_inbox "''B''" "''hi''"] ok
  have 3: "\<exists>row. POST ex_msg_faults (Some ''me'') (Some ''B'') (Some ''hi'') None ex_inbox
                = ((Stored row, 200), ex_inbox\<lparr>messages := messages ex_inbox @ [row]\<rparr>)
          \<and> m_sender_id row = ''me'' \<and> m_receiver_id row = ''B'' \<and> m_content row = ''hi''
          \<and> m_listing_id row = None \<and> m_read row = False"
    by simp
  have 4: "POST ex_msg_faults (Some ''me'') (Some ''B'') (Some ''hi'') None ex_inbox
     = ((Stored ex_m4, 200), ex_inbox\<lparr>messages := [ex_m1, ex_m2, ex_m3, ex_m4]\<rparr>)"
    by (simp add: POST_def ex_msg_faults_def ex_m4_def ex_inbox_def Let_def)
  from 1 2 3 4 show ?thesis by blast
qed

subsection \<open>Unread counts and reading a thread\<close>

text \<open>The count reported for a counterpart is the number of unread messages from that
  counterpart to the caller.\<close>

lemma unread_with_user:
  "unread uid (with_user uid k (user_messages uid st))
     = length (unread_from k uid (messages st))"
proof -
  let ?inv = "\<lambda>m. m_sender_id m = uid \<or> m_receiver_id m = uid"
  let ?P = "\<lambda>m. other_user uid m = k \<and> m_receiver_id m = uid \<and> \<not> m_read m"
  have "unread uid (with_user uid k (user_messages uid st))
          = length (filter ?P (user_messages uid st))"
    by (simp add: unread_def with_user_def)
  also have "\<dots> = length (filter ?P (filter ?inv (messages st)))"
    unfolding user_messages_def by (rule length_filter_order_created_at)
  also have "filter ?P (filter ?inv (messages st)) = unread_from k uid (messages st)"
  proof -
    have "(?inv m \<and> ?P m) = (m_sender_id m = k \<and> m_receiver_id m = uid \<and> \<not> m_read m)" for m
      by (cases "m_sender_id m = uid") (auto simp: other_user_def)
    then show ?thesis
      by (simp only: unread_from_def filter_filter)
  qed
  finally show ?thesis .
qed

lemma list_conversations_unread_count:
  assumes "c \<in> set (list_conversations f uid st)"
  shows "unreadCount c = length (unread_from (userId c) uid (messages st))"
proof -
  let ?data = "user_messages uid st"
  let ?ks = "first_seen (map (other_user uid) ?data)"
  from assms have "c \<in> (\<lambda>k. \<lparr>userId = k,
                  profile = profile_lookup f st ?ks k,
                  lastMessage = first_message (with_user uid k ?data),
                  unreadCount = unread uid (with_user uid k ?data)\<rparr>) ` set ?ks"
    unfolding list_conversations_closed_form by simp
  then obtain k where c: "c = \<lparr>userId = k,
                  profile = profile_lookup f st ?ks k,
                  lastMessage = first_message (with_user uid k ?data),
                  unreadCount = unread uid (with_user uid k ?data)\<rparr>"
    by (rule imageE)
  show ?thesis
    by (simp add: c unread_with_user)
qed

lemma mark_read_read:
  assumes "m \<in> set (messages (mark_read uid x st))"
    and "m_sender_id m = x" and "m_receiver_id m = uid"
  shows "m_read m"
proof -
  have "messages (mark_read uid x st)
          = map (\<lambda>m. if m_receiver_id m = uid \<and> m_sender_id m = x
                    then m\<lparr>m_read := True\<rparr> else m) (messages st)"
    by (simp add: mark_read_def)
  with assms(1)
  have "m \<in> (\<lambda>m. if m_receiver_id m = uid \<and> m_sender_id m = x
                 then m\<lparr>m_read := True\<rparr> else m) ` set (messages st)"
    by (simp only: set_map)
  then obtain m0 where
    m: "m = (if m_receiver_id m0 = uid \<and> m_sender_id m0 = x then m0\<lparr>m_read := True\<rparr> else m0)"
    by (rule imageE)
  show ?thesis
  proof (cases "m_receiver_id m0 = uid \<and> m_sender_id m0 = x")
    case True
    with m show ?thesis by simp
  next
    case False
    with m have "m = m0" by simp
    with False assms(2,3) show ?thesis by simp
  qed
qed

lemma unread_from_mark_read:
  "unread_from x uid (messages (mark_read uid x st)) = []"
  unfolding unread_from_def filter_empty_conv
  using mark_read_read by blast

lemma GET_Thread:
  assumes "GET f (Some uid) (Some x) st = ((Thread ms, code), st')"
  shows "ms = thread_messages uid x st
     \<and> st' = (if messages_update_fails f then st else mark_read uid x st)"
proof -
  have "x \<noteq> []"
  proof
    assume "x = []"
    with assms show False
      by (cases "messages_select_fails f") (simp_all add: GET_def)
  qed
  moreover have "\<not> messages_select_fails f"
  proof
    assume "messages_select_fails f"
    with assms \<open>x \<noteq> []\<close> show False
      by (simp add: GET_def)
  qed
  ultimately show ?thesis
    using assms by (simp add: GET_def)
qed

text \<open>When the store carries out the update of \<open>GET\<close> with \<^verbatim>\<open>otherUserId\<close>, no unread message
  from that user to the caller is left, and a conversation list taken from the new store
  reports 0 for that user.\<close>

lemma GET_thread_marks_read:
  assumes "GET f (Some uid) (Some x) st = ((Thread ms, code), st')"
    and "\<not> messages_update_fails f"
  shows "ms = thread_messages uid x st
     \<and> unread_from x uid (messages st') = []
     \<and> (\<forall>c \<in> set (list_conversations f' uid st'). userId c = x \<longrightarrow> unreadCount c = 0)"
proof -
  from GET_Thread[OF assms(1)] assms(2)
  have ms: "ms = thread_messages uid x st" and st': "st' = mark_read uid x st"
    by simp_all
  have u: "unread_from x uid (messages st') = []"
    unfolding st' by (rule unread_from_mark_read)
  have "unreadCount c = 0" if c: "c \<in> set (list_conversations f' uid st')" "userId c = x" for c
  proof -
    have "unreadCount c = length (unread_from (userId c) uid (messages st'))"
      by (rule list_conversations_unread_count[OF c(1)])
    also have "\<dots> = 0"
      unfolding c(2) u by simp
    finally show ?thesis .
  qed
  with ms u show ?thesis by blast
qed

text \<open>
  C8. The specification has the unread count of a counterpart equal to the number of
  unread messages from that counterpart to the caller, and has a thread fetch set all of
  them read, so that the next conversation list reports 0. The count is so
  (\<open>list_conversations_unread_count\<close>), and a thread fetch whose update the store carries
  out clears it (\<open>GET_thread_marks_read\<close>). But the answer of the update is dropped: with a
  store that rejects the update, \<open>GET\<close> for the thread with \<open>A\<close> answers the thread with
  status 200 and the message from \<open>A\<close> stays unread, so the conversation list taken next
  still reports 1 for \<open>A\<close>.
\<close>

theorem GET_thread_update_failure_unnoticed:
  "GET (ex_msg_faults\<lparr>messages_update_fails := True\<rparr>) (Some ''me'') (Some ''A'') ex_inbox
     = ((Thread [ex_m2, ex_m3], 200), ex_inbox)
   \<and> unread_from ''A'' ''me'' (messages ex_inbox) = [ex_m3]
   \<and> GET ex_msg_faults (Some ''me'') None
        (snd (GET (ex_msg_faults\<lparr>messages_update_fails := True\<rparr>) (Some ''me'') (Some ''A'')
                ex_inbox))
     = ((ConversationList ex_conversations, 200), ex_inbox)"
proof -
  have thread: "GET (ex_msg_faults\<lparr>messages_update_fails := True\<rparr>) (Some ''me'') (Some ''A'')
                  ex_inbox
                = ((Thread [ex_m2, ex_m3], 200), ex_inbox)"
    by (simp add: ex_msg_defs msg_defs)
  have unread: "unread_from ''A'' ''me'' (messages ex_inbox) = [ex_m3]"
    by (simp add: ex_msg_defs unread_from_def)
  have list: "GET ex_msg_faults (Some ''me'') None ex_inbox
                = ((ConversationList ex_conversations, 200), ex_inbox)"
    by (simp add: ex_msg_defs msg_defs Let_def)
  from thread unread list show ?thesis by simp
qed

end
